theory Spec2Isabelle
  imports Main "HOL-Library.Sublist" "HOL-Library.Signed_Division"
begin

section \<open>The update tracker of \<^verbatim>\<open>custom.c\<close>\<close>

text \<open>
  The model follows \<^verbatim>\<open>src/custom/custom.c\<close> in the configuration of a hosted
  build (neither \<^verbatim>\<open>CONFIG_ZEPHYR_LVGL\<close> nor \<^verbatim>\<open>CONFIG_ZEPHYR_KERNEL\<close> defined), with
  \<^verbatim>\<open>IS_SIMULATOR\<close> set so that \<^verbatim>\<open>simulate_update_cycle\<close> is compiled. A C string is the
  list of its characters before the terminating NUL. A pointer into a C string is the
  suffix of the string that starts at the pointer. Values of C integer
  types are integers of HOL, with the wrap-around of the type written out where the
  code's arithmetic can leave its range: \<^verbatim>\<open>int64_t\<close> at the clock reading times 1000 and
  at the difference of two such products, \<^verbatim>\<open>int\<close> at the result of \<^verbatim>\<open>atoi\<close>. A
  timestamp is only copied and compared, and the simulator multiplies a phase below 8
  by 100.
\<close>

subsection \<open>C strings and the library functions the code calls\<close>

definition c_str :: "char list \<Rightarrow> string" where
  \<comment> \<open>the C string held by a buffer: the bytes before the first NUL\<close>
  "c_str bytes = takeWhile (\<lambda>c. c \<noteq> CHR 0x00) bytes"

fun strstr :: "string \<Rightarrow> string \<Rightarrow> string option" where
  \<comment> \<open>the suffix of the haystack at the first occurrence of the needle\<close>
  "strstr [] needle = (if needle = [] then Some [] else None)"
| "strstr (c # cs) needle =
     (if prefix needle (c # cs) then Some (c # cs) else strstr cs needle)"

definition strchr :: "string \<Rightarrow> char \<Rightarrow> string option" where
  \<comment> \<open>the suffix of the string at the first occurrence of the character\<close>
  "strchr s ch = (case dropWhile (\<lambda>x. x \<noteq> ch) s of [] \<Rightarrow> None | r # rs \<Rightarrow> Some (r # rs))"

definition snprintf_str :: "nat \<Rightarrow> string \<Rightarrow> string" where
  \<comment> \<open>\<^verbatim>\<open>snprintf(buf, size, ...)\<close> keeps at most \<^verbatim>\<open>size - 1\<close> characters of the
      formatted text\<close>
  "snprintf_str n formatted = take (n - 1) formatted"

definition is_space_char :: "char \<Rightarrow> bool" where
  \<comment> \<open>the four characters the scanner skips and stops at\<close>
  "is_space_char c \<longleftrightarrow> c = CHR '' '' \<or> c = CHR 0x09 \<or> c = CHR 0x0A \<or> c = CHR 0x0D"

definition is_digit :: "char \<Rightarrow> bool" where
  "is_digit c \<longleftrightarrow> (48::nat) \<le> of_char c \<and> (of_char c :: nat) \<le> 57"

definition isspace :: "char \<Rightarrow> bool" where
  \<comment> \<open>the six white-space characters of the C locale\<close>
  "isspace c \<longleftrightarrow> c = CHR '' '' \<or> c = CHR 0x09 \<or> c = CHR 0x0A \<or> c = CHR 0x0B
     \<or> c = CHR 0x0C \<or> c = CHR 0x0D"

definition digit_val :: "char \<Rightarrow> int" where
  "digit_val c = int (of_char c) - 48"

definition atoi_digits :: "string \<Rightarrow> int" where
  \<comment> \<open>the value of the leading run of decimal digits\<close>
  "atoi_digits s = foldl (\<lambda>acc c. acc * 10 + digit_val c) 0 (takeWhile is_digit s)"

definition int32_wrap :: "int \<Rightarrow> int" where
  \<comment> \<open>the value an \<^verbatim>\<open>int\<close> of 32 bits takes from a wider integer: the low 32 bits in
      two's complement\<close>
  "int32_wrap x = (x + 2 ^ 31) mod 2 ^ 32 - 2 ^ 31"

definition int64_wrap :: "int \<Rightarrow> int" where
  \<comment> \<open>the value an \<^verbatim>\<open>int64_t\<close> holds after arithmetic that left its range: the low 64
      bits in two's complement\<close>
  "int64_wrap x = (x + 2 ^ 63) mod 2 ^ 64 - 2 ^ 63"

definition strtol :: "string \<Rightarrow> int" where
  \<comment> \<open>\<^verbatim>\<open>strtol(s, NULL, 10)\<close> with a \<^verbatim>\<open>long\<close> of 64 bits: white space, an optional
      sign, then digits; a value outside the range of \<^verbatim>\<open>long\<close> is replaced by
      \<^verbatim>\<open>LONG_MIN\<close> or \<^verbatim>\<open>LONG_MAX\<close>\<close>
  "strtol s =
     (let v = (case dropWhile isspace s of
                 [] \<Rightarrow> 0
               | c # cs \<Rightarrow>
                   if c = CHR ''-'' then - atoi_digits cs
                   else if c = CHR ''+'' then atoi_digits cs
                   else atoi_digits (c # cs))
      in max (- (2 ^ 63)) (min (2 ^ 63 - 1) v))"

definition atoi :: "string \<Rightarrow> int" where
  \<comment> \<open>as the C library of the hosted build has it, \<^verbatim>\<open>(int) strtol(s, NULL, 10)\<close>: the
      result is an \<^verbatim>\<open>int\<close> of 32 bits, equal to the number written when that is in
      the range of \<^verbatim>\<open>int\<close>\<close>
  "atoi s = int32_wrap (strtol s)"

definition digit_char :: "nat \<Rightarrow> char" where
  "digit_char d = char_of (48 + d)"

fun dec_nat :: "nat \<Rightarrow> string" where
  "dec_nat n = (if n < 10 then [digit_char n] else dec_nat (n div 10) @ [digit_char (n mod 10)])"

definition fmt_d :: "int \<Rightarrow> string" where
  \<comment> \<open>the conversion \<^verbatim>\<open>%d\<close>\<close>
  "fmt_d i = (if i < 0 then CHR ''-'' # dec_nat (nat (- i)) else dec_nat (nat i))"

subsection \<open>The field extractor\<close>

datatype parse_result =
    NotFound \<comment> \<open>the function returns \<^verbatim>\<open>false\<close> and leaves the destination alone\<close>
  | Found string \<comment> \<open>it returns \<^verbatim>\<open>true\<close>; the destination holds this C string\<close>
  | Overrun \<comment> \<open>\<^verbatim>\<open>max_len\<close> is 0: \<^verbatim>\<open>max_len - 1\<close> wraps to \<^verbatim>\<open>SIZE_MAX\<close> and
        \<^verbatim>\<open>memcpy\<close> runs past both buffers\<close>

definition copy_value :: "string \<Rightarrow> nat \<Rightarrow> nat \<Rightarrow> parse_result" where
  \<comment> \<open>the last four statements of either branch: clip \<^verbatim>\<open>len\<close>, \<^verbatim>\<open>memcpy\<close>,
      terminate\<close>
  "copy_value value_start len max_len =
     (if len \<ge> max_len then
        (if max_len = 0 then Overrun else Found (take (max_len - 1) value_start))
      else Found (take len value_start))"

definition is_token_end :: "char \<Rightarrow> bool" where
  \<comment> \<open>the characters that stop the loop of the bare-token branch\<close>
  "is_token_end c \<longleftrightarrow> c = CHR '','' \<or> c = CHR ''}'' \<or> c = CHR '' '' \<or> c = CHR 0x09
     \<or> c = CHR 0x0A \<or> c = CHR 0x0D"

definition parse_json_value :: "string \<Rightarrow> string \<Rightarrow> nat \<Rightarrow> parse_result" where
  "parse_json_value json key max_len =
     (let search_key = snprintf_str 64 ([CHR 0x22] @ key @ [CHR 0x22]) in
      case strstr json search_key of
        None \<Rightarrow> NotFound
      | Some key_pos \<Rightarrow>
          (case strchr (drop (length search_key) key_pos) (CHR '':'') of
             None \<Rightarrow> NotFound
           | Some colon \<Rightarrow>
               (let value_start = dropWhile is_space_char (tl colon) in
                if value_start \<noteq> [] \<and> hd value_start = CHR 0x22 then
                  (let after = tl value_start in
                   case strchr after (CHR 0x22) of
                     None \<Rightarrow> NotFound
                   | Some value_end \<Rightarrow>
                       copy_value after (length after - length value_end) max_len)
                else
                  (let value_end = dropWhile (\<lambda>x. \<not> is_token_end x) value_start in
                   copy_value value_start (length value_start - length value_end)
                     max_len))))"

subsection \<open>Effects\<close>

text \<open>
  Every function returns, beside its result, the trace of what it did: the calls it made
  to the C library and to LVGL, and its writes to the static variables, in program
  order. What the operating system answers is an argument of the function.
\<close>

record update_status_t =
  progress :: int
  status :: string
  step :: string

datatype event =
    Call_stat string
  | Call_time
  | Call_printf string
  | Call_fopen string string
  | Call_fread nat
  | Call_fwrite string
  | Call_fclose
  | Call_mkdir string nat
  | Call_lv_label_set_text nat string
  | Call_lv_bar_set_value nat int
  | Store_last_modified_time int
  | Store_last_log_time int
  | Store_current_status update_status_t

definition UPDATE_JSON_PATH :: string where
  "UPDATE_JSON_PATH = ''current_update_step.json''"

definition JSON_BUFFER_SIZE :: nat where
  "JSON_BUFFER_SIZE = 512"

subsection \<open>The file operations\<close>

definition get_file_timestamp :: "int option \<Rightarrow> string \<Rightarrow> int \<times> event list" where
  \<comment> \<open>the first argument is what \<^verbatim>\<open>stat\<close> answers: \<open>None\<close> when it fails, else
      \<^verbatim>\<open>st_mtime\<close>\<close>
  "get_file_timestamp stat_answer filepath =
     (case stat_answer of
        None \<Rightarrow> (0, [Call_stat filepath])
      | Some st_mtime \<Rightarrow> (st_mtime, [Call_stat filepath]))"

definition size_t_pred :: "nat \<Rightarrow> nat" where
  \<comment> \<open>\<^verbatim>\<open>n - 1\<close> in \<^verbatim>\<open>size_t\<close>, 64 bits wide\<close>
  "size_t_pred n = (n + 2 ^ 64 - 1) mod 2 ^ 64"

definition read_file_contents ::
  "char list option \<Rightarrow> string \<Rightarrow> nat \<Rightarrow> char list option \<times> event list" where
  \<comment> \<open>the first argument is what \<^verbatim>\<open>fopen(filepath, "rb")\<close> answers: \<open>None\<close> when it
      fails, else the bytes of the file, which \<^verbatim>\<open>fread\<close> delivers up to the count
      asked for. The result is \<open>Some buffer\<close> when the function returns \<^verbatim>\<open>true\<close>.\<close>
  "read_file_contents fopen_answer filepath max_size =
     (case fopen_answer of
        None \<Rightarrow> (None, [Call_fopen filepath ''rb''])
      | Some file_bytes \<Rightarrow>
          (let buffer = take (size_t_pred max_size) file_bytes;
               bytes_read = length buffer;
               tr = [Call_fopen filepath ''rb'', Call_fread (size_t_pred max_size), Call_fclose]
           in if bytes_read > 0 then (Some buffer, tr) else (None, tr)))"

record write_env =
  fopen_first :: bool \<comment> \<open>does the first \<^verbatim>\<open>fopen(filepath, "wb")\<close> succeed\<close>
  fopen_retry :: bool \<comment> \<open>does the second one\<close>
  fwrite_count :: nat \<comment> \<open>what \<^verbatim>\<open>fwrite\<close> returns\<close>

definition write_file_contents :: "write_env \<Rightarrow> string \<Rightarrow> string \<Rightarrow> bool \<times> event list" where
  \<comment> \<open>the mode \<^verbatim>\<open>0777\<close> of \<^verbatim>\<open>mkdir\<close> is \<open>0x1FF\<close>\<close>
  "write_file_contents env filepath content =
     (if \<not> fopen_first env then
        (if \<not> fopen_retry env then
           (False, [Call_fopen filepath ''wb'', Call_mkdir ''tmp'' 0x1FF,
                    Call_fopen filepath ''wb''])
         else
           (fwrite_count env = length content,
            [Call_fopen filepath ''wb'', Call_mkdir ''tmp'' 0x1FF,
             Call_fopen filepath ''wb'', Call_fwrite content, Call_fclose]))
      else
        (fwrite_count env = length content,
         [Call_fopen filepath ''wb'', Call_fwrite content, Call_fclose]))"

subsection \<open>The poll tick\<close>

record tracker_state =
  last_modified_time :: int
  current_status :: update_status_t
  last_log_time :: int \<comment> \<open>the \<^verbatim>\<open>static\<close> local of \<^verbatim>\<open>check_update_status\<close>\<close>

definition initial_status :: update_status_t where
  "initial_status = \<lparr>progress = 0, status = ''System Ready'', step = ''Waiting for update''\<rparr>"

definition initial_state :: tracker_state where
  "initial_state = \<lparr>last_modified_time = 0, current_status = initial_status, last_log_time = 0\<rparr>"

record lv_ui =
  screen_status :: "nat option" \<comment> \<open>a widget pointer; \<open>None\<close> is \<^verbatim>\<open>NULL\<close>\<close>
  screen_step :: "nat option"
  screen_progress :: "nat option"
  screen_loading_bar :: "nat option"

record poll_env =
  stat_answer :: "int option" \<comment> \<open>\<^verbatim>\<open>st_mtime\<close>, or \<open>None\<close> when \<^verbatim>\<open>stat\<close> fails\<close>
  time_answer :: int \<comment> \<open>\<^verbatim>\<open>time(NULL)\<close>, in seconds, a \<^verbatim>\<open>time_t\<close> of 64 bits\<close>
  fopen_answer :: "char list option" \<comment> \<open>the file's bytes, or \<open>None\<close> when
    \<^verbatim>\<open>fopen\<close> fails\<close>

definition waiting_message :: string where
  "waiting_message = ''Waiting for update status file: '' @ UPDATE_JSON_PATH @ ''\<newline>''"

definition read_error_message :: string where
  "read_error_message = ''Error: Could not read file '' @ UPDATE_JSON_PATH @ ''\<newline>''"

definition parse_fields :: "string \<Rightarrow> update_status_t \<Rightarrow> update_status_t" where
  \<comment> \<open>the three calls of \<^verbatim>\<open>parse_json_value\<close> on the local copy \<^verbatim>\<open>status\<close>; the
      second and third write into the field itself. With the lengths 32 and 64 the
      outcome \<open>Overrun\<close> does not arise.\<close>
  "parse_fields buffer st0 =
     (let st1 = (case parse_json_value buffer ''progress'' 32 of
                   Found value_str \<Rightarrow> st0\<lparr>progress := atoi value_str\<rparr>
                 | NotFound \<Rightarrow> st0
                 | Overrun \<Rightarrow> st0);
          st2 = (case parse_json_value buffer ''status'' 64 of
                   Found v \<Rightarrow> st1\<lparr>status := v\<rparr>
                 | NotFound \<Rightarrow> st1
                 | Overrun \<Rightarrow> st1);
          st3 = (case parse_json_value buffer ''step'' 64 of
                   Found v \<Rightarrow> st2\<lparr>step := v\<rparr>
                 | NotFound \<Rightarrow> st2
                 | Overrun \<Rightarrow> st2)
      in st3)"

definition update_ui :: "lv_ui \<Rightarrow> update_status_t \<Rightarrow> event list" where
  "update_ui ui st =
     (case screen_status ui of None \<Rightarrow> [] | Some w \<Rightarrow> [Call_lv_label_set_text w (status st)])
     @ (case screen_step ui of None \<Rightarrow> [] | Some w \<Rightarrow> [Call_lv_label_set_text w (step st)])
     @ (case screen_progress ui of None \<Rightarrow> []
        | Some w \<Rightarrow> [Call_lv_label_set_text w (snprintf_str 8 (fmt_d (progress st) @ ''%''))])
     @ (case screen_loading_bar ui of None \<Rightarrow> []
        | Some w \<Rightarrow> [Call_lv_bar_set_value w (progress st)])"

definition status_message :: "update_status_t \<Rightarrow> string" where
  "status_message st =
     ''Update status: '' @ fmt_d (progress st) @ ''% - '' @ status st @ '' - '' @ step st
       @ ''\<newline>''"

definition check_update_status ::
  "poll_env \<Rightarrow> lv_ui \<Rightarrow> tracker_state \<Rightarrow> tracker_state \<times> event list" where
  "check_update_status env ui s =
     (let st0 = current_status s;
          (file_time, tr0) = get_file_timestamp (stat_answer env) UPDATE_JSON_PATH
      in
      if file_time = 0 then
        (let current_time = int64_wrap (time_answer env * 1000) in
         if int64_wrap (current_time - last_log_time s) > 10000 then
           (s\<lparr>last_log_time := current_time\<rparr>,
            tr0 @ [Call_time, Call_printf waiting_message, Store_last_log_time current_time])
         else (s, tr0 @ [Call_time]))
      else if file_time \<noteq> last_modified_time s then
        (let s1 = s\<lparr>last_modified_time := file_time\<rparr>;
             tr1 = tr0 @ [Store_last_modified_time file_time]
         in
         case read_file_contents (fopen_answer env) UPDATE_JSON_PATH JSON_BUFFER_SIZE of
           (None, tr_read) \<Rightarrow> (s1, tr1 @ tr_read @ [Call_printf read_error_message])
         | (Some buffer, tr_read) \<Rightarrow>
             (let st = parse_fields (c_str buffer) st0 in
              (s1\<lparr>current_status := st\<rparr>,
               tr1 @ tr_read @ [Store_current_status st] @ update_ui ui st
                 @ [Call_printf (status_message st)])))
      else (s, tr0))"

fun run_ticks ::
  "poll_env list \<Rightarrow> lv_ui \<Rightarrow> tracker_state \<Rightarrow> tracker_state \<times> event list" where
  \<comment> \<open>the timer calls \<^verbatim>\<open>update_tracker_task\<close>, hence \<^verbatim>\<open>check_update_status\<close>, once
      for each answer of the environment\<close>
  "run_ticks [] ui s = (s, [])"
| "run_ticks (env # envs) ui s =
     (let (s1, tr1) = check_update_status env ui s;
          (s2, tr2) = run_ticks envs ui s1
      in (s2, tr1 @ tr2))"

subsection \<open>Bootstrap\<close>

definition default_json :: string where
  \<open>default_json =
     ''{\<newline>    "progress": 0,\<newline>    "status": "System Ready",\<newline>    "step": "Waiting for update"\<newline>}\<newline>''\<close>

definition ensure_update_json_exists :: "int option \<Rightarrow> write_env \<Rightarrow> event list" where
  "ensure_update_json_exists stat_ans wenv =
     (let (file_time, tr0) = get_file_timestamp stat_ans UPDATE_JSON_PATH in
      if file_time \<noteq> 0 then tr0
      else
        (let (ok, tr_write) = write_file_contents wenv UPDATE_JSON_PATH default_json in
         if \<not> ok then
           tr0 @ tr_write @ [Call_printf (''Error: Could not create '' @ UPDATE_JSON_PATH
             @ ''\<newline>'')]
         else
           tr0 @ tr_write @ [Call_printf (''Created default update status file at ''
             @ UPDATE_JSON_PATH @ ''\<newline>'')]))"

subsection \<open>The simulator\<close>

definition update_steps :: "string list" where
  "update_steps =
     [''Preparing for update'', ''Downloading packages'', ''Verifying download'',
      ''Installing updates'', ''Configuring system'', ''Finalizing installation'',
      ''Cleaning up'', ''Update complete.'']"

definition num_phases :: int where
  "num_phases = int (length update_steps)"

definition sim_progress_raw :: "int \<Rightarrow> int" where
  \<comment> \<open>\<^verbatim>\<open>(update_phase * 100) / num_phases\<close>, the division of C\<close>
  "sim_progress_raw update_phase = (update_phase * 100) sdiv num_phases"

definition sim_progress :: "int \<Rightarrow> int" where
  "sim_progress update_phase =
     (let p = sim_progress_raw update_phase in if p > 100 then 100 else p)"

definition sim_json :: "int \<Rightarrow> string \<Rightarrow> string" where
  \<open>sim_json p step_text =
     snprintf_str 512
       (''{\<newline>    "progress": '' @ fmt_d p
        @ '',\<newline>    "status": "System Updating...",\<newline>    "step": "'' @ step_text
        @ ''"\<newline>}\<newline>'')\<close>

definition simulate_update_cycle :: "write_env \<Rightarrow> int \<Rightarrow> (int \<times> event list) option" where
  \<comment> \<open>the state is the \<^verbatim>\<open>static\<close> local \<^verbatim>\<open>update_phase\<close>; \<open>None\<close> is a read
      outside \<^verbatim>\<open>update_steps\<close>\<close>
  "simulate_update_cycle wenv update_phase =
     (if update_phase < 0 \<or> update_phase \<ge> num_phases then None
      else
        (let json_content =
               sim_json (sim_progress update_phase) (update_steps ! nat update_phase);
             (ok, tr) = write_file_contents wenv UPDATE_JSON_PATH json_content;
             next_phase = update_phase + 1
         in Some (if next_phase \<ge> num_phases then 0 else next_phase, tr)))"

fun simulate_run :: "write_env list \<Rightarrow> int \<Rightarrow> (int \<times> event list) option" where
  \<comment> \<open>one tick of the simulator's timer for each answer of the environment\<close>
  "simulate_run [] update_phase = Some (update_phase, [])"
| "simulate_run (wenv # wenvs) update_phase =
     (case simulate_update_cycle wenv update_phase of
        None \<Rightarrow> None
      | Some (p1, tr1) \<Rightarrow>
          (case simulate_run wenvs p1 of
             None \<Rightarrow> None
           | Some (p2, tr2) \<Rightarrow> Some (p2, tr1 @ tr2)))"

subsection \<open>Observations on traces\<close>

text \<open>
  A call of \<^verbatim>\<open>read_file_contents\<close> is seen in a trace by its \<^verbatim>\<open>fopen\<close> for reading,
  a replacement of the status store by its write to \<^verbatim>\<open>current_status\<close>.
\<close>

fun is_read_call :: "event \<Rightarrow> bool" where
  "is_read_call (Call_fopen p m) = (m = ''rb'')"
| "is_read_call _ = False"

definition read_calls :: "event list \<Rightarrow> nat" where
  "read_calls tr = length (filter is_read_call tr)"

fun is_status_store :: "event \<Rightarrow> bool" where
  "is_status_store (Store_current_status st) = True"
| "is_status_store _ = False"

definition status_stores :: "event list \<Rightarrow> event list" where
  "status_stores tr = filter is_status_store tr"

definition file_time_of :: "poll_env \<Rightarrow> int" where
  \<comment> \<open>what \<open>get_file_timestamp\<close> returns to the tick in this environment\<close>
  "file_time_of env = fst (get_file_timestamp (stat_answer env) UPDATE_JSON_PATH)"

definition prints_waiting :: "event list \<Rightarrow> bool" where
  "prints_waiting tr \<longleftrightarrow> Call_printf waiting_message \<in> set tr"

fun diagnostic_times :: "poll_env list \<Rightarrow> lv_ui \<Rightarrow> tracker_state \<Rightarrow> int list" where
  \<comment> \<open>the clock readings, in milliseconds, of the ticks of a run that print the waiting
      message\<close>
  "diagnostic_times [] ui s = []"
| "diagnostic_times (env # envs) ui s =
     (if prints_waiting (snd (check_update_status env ui s)) then [time_answer env * 1000] else [])
     @ diagnostic_times envs ui (fst (check_update_status env ui s))"

definition clock_in_range :: "poll_env \<Rightarrow> bool" where
  \<comment> \<open>the clock reading is not negative and its product with 1000 fits \<^verbatim>\<open>int64_t\<close>\<close>
  "clock_in_range env \<longleftrightarrow> 0 \<le> time_answer env \<and> time_answer env * 1000 < 2 ^ 63"

definition log_time_in_range :: "tracker_state \<Rightarrow> bool" where
  \<comment> \<open>\<open>last_log_time\<close> is 0 or an earlier clock reading in range, in milliseconds\<close>
  "log_time_in_range s \<longleftrightarrow> 0 \<le> last_log_time s \<and> last_log_time s < 2 ^ 63"

subsection \<open>Sample environments\<close>

definition sample_ui :: lv_ui where
  "sample_ui = \<lparr>screen_status = Some 1, screen_step = Some 2, screen_progress = Some 3,
     screen_loading_bar = Some 4\<rparr>"

definition absent_env :: "int \<Rightarrow> poll_env" where
  \<comment> \<open>no status file, \<open>t\<close> seconds on the clock\<close>
  "absent_env t = \<lparr>stat_answer = None, time_answer = t, fopen_answer = None\<rparr>"

definition file_env :: "int \<Rightarrow> char list option \<Rightarrow> poll_env" where
  \<comment> \<open>a status file modified at \<open>mtime\<close>, at 50 seconds on the clock\<close>
  "file_env mtime bytes = \<lparr>stat_answer = Some mtime, time_answer = 50, fopen_answer = bytes\<rparr>"

definition write_ok :: "nat \<Rightarrow> write_env" where
  \<comment> \<open>the file opens at once and \<^verbatim>\<open>fwrite\<close> returns \<open>n\<close>\<close>
  "write_ok n = \<lparr>fopen_first = True, fopen_retry = True, fwrite_count = n\<rparr>"

definition write_denied :: write_env where
  \<comment> \<open>the file opens neither at first nor at the retry\<close>
  "write_denied = \<lparr>fopen_first = False, fopen_retry = False, fwrite_count = 0\<rparr>"

definition UPDATE_JSON_PATH_target :: string where
  \<comment> \<open>\<^verbatim>\<open>UPDATE_JSON_PATH\<close> of the hosted build without \<^verbatim>\<open>IS_SIMULATOR\<close>\<close>
  "UPDATE_JSON_PATH_target = ''/var/lib/update_tracker/current_update_step.json''"

subsection \<open>The parent directory of a path\<close>

definition spec_parent_directory :: "string \<Rightarrow> string" where
  \<comment> \<open>the immediate parent directory of a path, in the words of the specification: the
      text before the last slash, the current directory when there is no slash\<close>
  "spec_parent_directory path =
     (if CHR ''/'' \<notin> set path then ''.''
      else
        (let dir = rev (tl (dropWhile (\<lambda>c. c \<noteq> CHR ''/'') (rev path)))
         in if dir = [] then ''/'' else dir))"

subsection \<open>The scan of the field extractor as the specification words it\<close>

text \<open>
  These definitions follow section 4.2 of the specification, not the code; the code's
  \<open>parse_json_value\<close> is compared with \<open>spec_extract\<close> below.
\<close>

definition spec_first_occurrence :: "string \<Rightarrow> string \<Rightarrow> nat option" where
  \<comment> \<open>the least position at which the needle occurs in the payload\<close>
  "spec_first_occurrence payload needle =
     List.find (\<lambda>i. take (length needle) (drop i payload) = needle) [0..<Suc (length payload)]"

definition spec_is_whitespace :: "char \<Rightarrow> bool" where
  "spec_is_whitespace c \<longleftrightarrow> c \<in> {CHR '' '', CHR 0x09, CHR 0x0D, CHR 0x0A}"

definition spec_ends_bare_token :: "char \<Rightarrow> bool" where
  "spec_ends_bare_token c \<longleftrightarrow>
     c \<in> {CHR '','', CHR ''}'', CHR '' '', CHR 0x09, CHR 0x0D, CHR 0x0A}"

definition spec_quoted :: "string \<Rightarrow> string" where
  \<comment> \<open>the field name between two double quotes\<close>
  "spec_quoted field_name = [CHR 0x22] @ field_name @ [CHR 0x22]"

definition spec_extract :: "string \<Rightarrow> string \<Rightarrow> nat \<Rightarrow> string option" where
  \<comment> \<open>first occurrence of the quoted name, else fail; next colon after the name, else fail;
      skip white space; after a quote the value runs to the next quote, else fail;
      otherwise it runs to the first delimiter or the end; at most \<open>max_len - 1\<close>
      characters are kept\<close>
  "spec_extract payload field_name max_len =
     (case spec_first_occurrence payload (spec_quoted field_name) of
        None \<Rightarrow> None
      | Some i \<Rightarrow>
          (let after_name = drop (i + length (spec_quoted field_name)) payload in
           if CHR '':'' \<notin> set after_name then None
           else
             (let after_colon = tl (dropWhile (\<lambda>c. c \<noteq> CHR '':'') after_name);
                  v = dropWhile spec_is_whitespace after_colon
              in case v of
                   [] \<Rightarrow> Some []
                 | c # body \<Rightarrow>
                     if c = CHR 0x22 then
                       (if CHR 0x22 \<notin> set body then None
                        else Some (take (max_len - 1) (takeWhile (\<lambda>x. x \<noteq> CHR 0x22) body)))
                     else
                       Some (take (max_len - 1)
                               (takeWhile (\<lambda>x. \<not> spec_ends_bare_token x) v)))))"

section \<open>Properties of the poll tick\<close>

lemma update_ui_no_read: "filter is_read_call (update_ui ui st) = []"
  by (simp add: update_ui_def split: option.splits)

lemma update_ui_no_store: "filter is_status_store (update_ui ui st) = []"
  by (simp add: update_ui_def split: option.splits)

lemma tick_unchanged:
  "file_time_of env = 0 \<or> file_time_of env = last_modified_time s \<Longrightarrow>
   read_calls (snd (check_update_status env ui s)) = 0
   \<and> current_status (fst (check_update_status env ui s)) = current_status s
   \<and> status_stores (snd (check_update_status env ui s)) = []"
  by (auto simp: file_time_of_def check_update_status_def get_file_timestamp_def Let_def
      read_calls_def status_stores_def split: option.splits)

lemma tick_changed:
  "file_time_of env \<noteq> 0 \<Longrightarrow> file_time_of env \<noteq> last_modified_time s \<Longrightarrow>
   read_calls (snd (check_update_status env ui s)) = 1
   \<and> length (status_stores (snd (check_update_status env ui s))) \<le> 1
   \<and> status_stores (takeWhile (\<lambda>e. \<not> is_read_call e) (snd (check_update_status env ui s))) = []"
  by (auto simp: file_time_of_def check_update_status_def get_file_timestamp_def Let_def
      read_calls_def status_stores_def read_file_contents_def update_ui_no_read update_ui_no_store
      split: option.splits)

lemma waiting_neq_error: "waiting_message \<noteq> read_error_message"
  by (simp add: waiting_message_def read_error_message_def)

lemma waiting_neq_status: "waiting_message \<noteq> status_message st"
  by (simp add: waiting_message_def status_message_def)

lemma update_ui_no_printf: "Call_printf m \<notin> set (update_ui ui st)"
  by (simp add: update_ui_def split: option.splits)

lemma int64_wrap_id: "- (2 ^ 63) \<le> x \<Longrightarrow> x < 2 ^ 63 \<Longrightarrow> int64_wrap x = x"
  by (simp add: int64_wrap_def)

lemma prints_waiting_wrap:
  "prints_waiting (snd (check_update_status env ui s)) \<longleftrightarrow>
     file_time_of env = 0
     \<and> int64_wrap (int64_wrap (time_answer env * 1000) - last_log_time s) > 10000"
  by (auto simp: prints_waiting_def file_time_of_def check_update_status_def
      get_file_timestamp_def Let_def read_file_contents_def waiting_neq_error waiting_neq_status
      update_ui_no_printf split: option.splits)

lemma last_log_time_tick_wrap:
  "last_log_time (fst (check_update_status env ui s)) =
     (if prints_waiting (snd (check_update_status env ui s))
      then int64_wrap (time_answer env * 1000)
      else last_log_time s)"
  unfolding prints_waiting_wrap
  by (auto simp: file_time_of_def check_update_status_def
      get_file_timestamp_def Let_def read_file_contents_def split: option.splits)

lemma clock_product_in_range:
  "clock_in_range env \<Longrightarrow> int64_wrap (time_answer env * 1000) = time_answer env * 1000"
  by (rule int64_wrap_id) (simp_all add: clock_in_range_def)

lemma clock_difference_in_range:
  "clock_in_range env \<Longrightarrow> log_time_in_range s \<Longrightarrow>
     int64_wrap (time_answer env * 1000 - last_log_time s) = time_answer env * 1000 - last_log_time s"
  by (rule int64_wrap_id) (simp_all add: clock_in_range_def log_time_in_range_def)

lemma prints_waiting_iff:
  "clock_in_range env \<Longrightarrow> log_time_in_range s \<Longrightarrow>
   prints_waiting (snd (check_update_status env ui s)) \<longleftrightarrow>
     file_time_of env = 0 \<and> time_answer env * 1000 - last_log_time s > 10000"
  by (simp add: prints_waiting_wrap clock_product_in_range clock_difference_in_range)

lemma last_log_time_tick:
  "clock_in_range env \<Longrightarrow>
   last_log_time (fst (check_update_status env ui s)) =
     (if prints_waiting (snd (check_update_status env ui s)) then time_answer env * 1000
      else last_log_time s)"
  by (simp add: last_log_time_tick_wrap clock_product_in_range)

lemma log_time_in_range_tick:
  "clock_in_range env \<Longrightarrow> log_time_in_range s \<Longrightarrow>
     log_time_in_range (fst (check_update_status env ui s))"
  by (simp add: log_time_in_range_def [of "fst (check_update_status env ui s)"]
      last_log_time_tick)
    (simp add: clock_in_range_def log_time_in_range_def)

lemma diagnostic_times_spaced:
  "\<forall>e \<in> set envs. clock_in_range e \<Longrightarrow> log_time_in_range s \<Longrightarrow>
   (\<forall>x \<in> set (diagnostic_times envs ui s). x - last_log_time s > 10000)
   \<and> sorted_wrt (\<lambda>a b. b - a > 10000) (diagnostic_times envs ui s)"
proof (induction envs arbitrary: s)
  case Nil
  show ?case by simp
next
  case (Cons env envs)
  let ?s1 = "fst (check_update_status env ui s)"
  from Cons.prems have clock: "clock_in_range env" and rest: "\<forall>e \<in> set envs. clock_in_range e"
    by simp_all
  have "log_time_in_range ?s1"
    using clock Cons.prems(2) by (rule log_time_in_range_tick)
  note IH = Cons.IH [OF rest this]
  show ?case
  proof (cases "prints_waiting (snd (check_update_status env ui s))")
    case True
    then have now: "time_answer env * 1000 - last_log_time s > 10000"
      using clock Cons.prems(2) by (simp add: prints_waiting_iff)
    have llt: "last_log_time ?s1 = time_answer env * 1000"
      using True clock by (simp add: last_log_time_tick)
    from IH llt have later: "\<forall>x \<in> set (diagnostic_times envs ui ?s1). x - time_answer env * 1000 > 10000"
      by simp
    with now have "\<forall>x \<in> set (diagnostic_times envs ui ?s1). x - last_log_time s > 10000"
      by fastforce
    with True now later IH show ?thesis by simp
  next
    case False
    then have "last_log_time ?s1 = last_log_time s"
      using clock by (simp add: last_log_time_tick)
    with False IH show ?thesis by simp
  qed
qed

lemma absent_tick_frame:
  "file_time_of env = 0 \<Longrightarrow>
     read_calls (snd (check_update_status env ui s)) = 0
     \<and> current_status (fst (check_update_status env ui s)) = current_status s
     \<and> last_modified_time (fst (check_update_status env ui s)) = last_modified_time s"
  by (auto simp: file_time_of_def check_update_status_def get_file_timestamp_def Let_def
      read_calls_def split: option.splits)

lemma run_ticks_Cons_fst:
  "fst (run_ticks (env # envs) ui s) = fst (run_ticks envs ui (fst (check_update_status env ui s)))"
  by (simp add: split_def Let_def)

lemma run_ticks_Cons_snd:
  "snd (run_ticks (env # envs) ui s) =
     snd (check_update_status env ui s) @ snd (run_ticks envs ui (fst (check_update_status env ui s)))"
  by (simp add: split_def Let_def)

lemma read_calls_append: "read_calls (a @ b) = read_calls a + read_calls b"
  by (simp add: read_calls_def)

lemma absent_run_frame:
  "\<forall>env \<in> set envs. file_time_of env = 0 \<Longrightarrow>
     read_calls (snd (run_ticks envs ui s)) = 0
     \<and> current_status (fst (run_ticks envs ui s)) = current_status s
     \<and> last_modified_time (fst (run_ticks envs ui s)) = last_modified_time s"
proof (induction envs arbitrary: s)
  case Nil
  show ?case by (simp add: read_calls_def)
next
  case (Cons env envs)
  then have "file_time_of env = 0" and rest: "\<forall>e \<in> set envs. file_time_of e = 0"
    by simp_all
  from absent_tick_frame [OF this(1), of ui s] Cons.IH [OF rest, of "fst (check_update_status env ui s)"]
  show ?case
    by (simp add: run_ticks_Cons_fst run_ticks_Cons_snd read_calls_append del: run_ticks.simps(2))
qed


lemma same_timestamp_run:
  "last_modified_time s \<noteq> 0 \<Longrightarrow> \<forall>e \<in> set envs. file_time_of e = last_modified_time s \<Longrightarrow>
     fst (run_ticks envs ui s) = s \<and> read_calls (snd (run_ticks envs ui s)) = 0"
proof (induction envs)
  case Nil
  show ?case by (simp add: read_calls_def)
next
  case (Cons env envs)
  then have same: "file_time_of env = last_modified_time s" and nz: "file_time_of env \<noteq> 0"
    by simp_all
  then have one: "check_update_status env ui s = (s, [Call_stat UPDATE_JSON_PATH])"
    by (auto simp: file_time_of_def check_update_status_def get_file_timestamp_def Let_def
        split: option.splits)
  from Cons have "fst (run_ticks envs ui s) = s \<and> read_calls (snd (run_ticks envs ui s)) = 0"
    by simp
  with one show ?case
    by (simp add: run_ticks_Cons_fst run_ticks_Cons_snd read_calls_append read_calls_def
        del: run_ticks.simps(2))
qed

text \<open>
  C1, as the code has it. A tick whose timestamp is 0 or equal to the stored
  \<open>last_modified_time\<close> calls \<open>read_file_contents\<close> not at all and leaves
  \<open>current_status\<close> as it was. A tick with any other timestamp calls it exactly once,
  and replaces \<open>current_status\<close> at most once and not before the read. No tick reads
  twice.
\<close>

theorem poll_tick_reads_at_most_once:
  "(file_time_of env = 0 \<or> file_time_of env = last_modified_time s \<longrightarrow>
      read_calls (snd (check_update_status env ui s)) = 0
      \<and> current_status (fst (check_update_status env ui s)) = current_status s
      \<and> status_stores (snd (check_update_status env ui s)) = [])
   \<and> (file_time_of env \<noteq> 0 \<and> file_time_of env \<noteq> last_modified_time s \<longrightarrow>
      read_calls (snd (check_update_status env ui s)) = 1
      \<and> length (status_stores (snd (check_update_status env ui s))) \<le> 1
      \<and> status_stores (takeWhile (\<lambda>e. \<not> is_read_call e) (snd (check_update_status env ui s))) = [])
   \<and> read_calls (snd (check_update_status env ui s)) \<le> 1"
proof (cases "file_time_of env = 0 \<or> file_time_of env = last_modified_time s")
  case True
  with tick_unchanged [OF True, of ui] show ?thesis by auto
next
  case False
  then have "file_time_of env \<noteq> 0" and "file_time_of env \<noteq> last_modified_time s"
    by simp_all
  from tick_changed [OF this, of ui] False show ?thesis by simp
qed

theorem poll_tick_reads_at_most_once_witness:
  "file_time_of (file_env 7 (Some default_json)) = last_modified_time (initial_state\<lparr>last_modified_time := 7\<rparr>)
   \<and> read_calls (snd (check_update_status (file_env 7 (Some default_json)) sample_ui
        (initial_state\<lparr>last_modified_time := 7\<rparr>))) = 0
   \<and> file_time_of (file_env 7 (Some default_json)) \<noteq> 0
   \<and> file_time_of (file_env 7 (Some default_json)) \<noteq> last_modified_time initial_state
   \<and> read_calls (snd (check_update_status (file_env 7 (Some default_json)) sample_ui
        initial_state)) = 1"
  using poll_tick_reads_at_most_once
          [of "file_env 7 (Some default_json)" "initial_state\<lparr>last_modified_time := 7\<rparr>" sample_ui]
        poll_tick_reads_at_most_once
          [of "file_env 7 (Some default_json)" initial_state sample_ui]
  by (simp add: file_time_of_def file_env_def get_file_timestamp_def initial_state_def)

text \<open>
  C1 as the claim words it fails: once the file of timestamp 7 has been read and then
  removed, the timestamp 0 of the next tick differs from the stored 7, and the tick
  reads nothing.
\<close>

theorem poll_tick_absent_after_read_counterexample:
  "file_time_of (absent_env 60)
     \<noteq> last_modified_time
          (fst (check_update_status (file_env 7 (Some default_json)) sample_ui initial_state))
   \<and> read_calls
        (snd (check_update_status (absent_env 60) sample_ui
           (fst (check_update_status (file_env 7 (Some default_json)) sample_ui initial_state))))
      \<noteq> 1"
  by (simp add: file_time_of_def absent_env_def file_env_def get_file_timestamp_def
      initial_state_def check_update_status_def read_file_contents_def Let_def
      JSON_BUFFER_SIZE_def size_t_pred_def default_json_def read_calls_def int64_wrap_def)

text \<open>
  C7. A tick on which \<open>get_file_timestamp\<close> returns 0 reads nothing and changes neither
  \<open>current_status\<close> nor \<open>last_modified_time\<close>; it prints the waiting message exactly
  when the 64-bit difference of the clock, in milliseconds, and \<open>last_log_time\<close> is
  above 10000, and then sets \<open>last_log_time\<close> to the clock. While the clock reading is
  not negative and its milliseconds fit \<^verbatim>\<open>int64_t\<close>, that difference is the time elapsed:
  the message is printed exactly when more than 10000 ms have passed since
  \<open>last_log_time\<close>. Over any run of absent-file ticks the store is never touched, and in
  any run of ticks with such clock readings, two waiting messages are more than 10000 ms
  apart.
\<close>

theorem absent_file_tick_rate_limited:
  "(file_time_of env = 0 \<longrightarrow>
      read_calls (snd (check_update_status env ui s)) = 0
      \<and> current_status (fst (check_update_status env ui s)) = current_status s
      \<and> last_modified_time (fst (check_update_status env ui s)) = last_modified_time s
      \<and> (prints_waiting (snd (check_update_status env ui s))
           \<longleftrightarrow> int64_wrap (int64_wrap (time_answer env * 1000) - last_log_time s) > 10000)
      \<and> last_log_time (fst (check_update_status env ui s)) =
          (if int64_wrap (int64_wrap (time_answer env * 1000) - last_log_time s) > 10000
           then int64_wrap (time_answer env * 1000)
           else last_log_time s))
   \<and> (file_time_of env = 0 \<and> clock_in_range env \<and> log_time_in_range s \<longrightarrow>
      (prints_waiting (snd (check_update_status env ui s))
           \<longleftrightarrow> time_answer env * 1000 - last_log_time s > 10000)
      \<and> last_log_time (fst (check_update_status env ui s)) =
          (if time_answer env * 1000 - last_log_time s > 10000 then time_answer env * 1000
           else last_log_time s))
   \<and> ((\<forall>e \<in> set envs. file_time_of e = 0) \<longrightarrow>
      read_calls (snd (run_ticks envs ui s)) = 0
      \<and> current_status (fst (run_ticks envs ui s)) = current_status s
      \<and> last_modified_time (fst (run_ticks envs ui s)) = last_modified_time s)
   \<and> ((\<forall>e \<in> set envs. clock_in_range e) \<and> log_time_in_range s \<longrightarrow>
      sorted_wrt (\<lambda>earlier later. later - earlier > 10000) (diagnostic_times envs ui s)
      \<and> (\<forall>t \<in> set (diagnostic_times envs ui s). t - last_log_time s > 10000))"
proof -
  have tick: "file_time_of env = 0 \<longrightarrow>
      read_calls (snd (check_update_status env ui s)) = 0
      \<and> current_status (fst (check_update_status env ui s)) = current_status s
      \<and> last_modified_time (fst (check_update_status env ui s)) = last_modified_time s
      \<and> (prints_waiting (snd (check_update_status env ui s))
           \<longleftrightarrow> int64_wrap (int64_wrap (time_answer env * 1000) - last_log_time s) > 10000)
      \<and> last_log_time (fst (check_update_status env ui s)) =
          (if int64_wrap (int64_wrap (time_answer env * 1000) - last_log_time s) > 10000
           then int64_wrap (time_answer env * 1000)
           else last_log_time s)"
    using absent_tick_frame [of env ui s] prints_waiting_wrap [of env ui s]
      last_log_time_tick_wrap [of env ui s]
    by simp
  have ranged: "file_time_of env = 0 \<and> clock_in_range env \<and> log_time_in_range s \<longrightarrow>
      (prints_waiting (snd (check_update_status env ui s))
           \<longleftrightarrow> time_answer env * 1000 - last_log_time s > 10000)
      \<and> last_log_time (fst (check_update_status env ui s)) =
          (if time_answer env * 1000 - last_log_time s > 10000 then time_answer env * 1000
           else last_log_time s)"
    using prints_waiting_iff [of env s ui] last_log_time_tick [of env ui s]
    by simp
  have run: "(\<forall>e \<in> set envs. file_time_of e = 0) \<longrightarrow>
      read_calls (snd (run_ticks envs ui s)) = 0
      \<and> current_status (fst (run_ticks envs ui s)) = current_status s
      \<and> last_modified_time (fst (run_ticks envs ui s)) = last_modified_time s"
    using absent_run_frame [of envs ui s] by blast
  have spaced: "(\<forall>e \<in> set envs. clock_in_range e) \<and> log_time_in_range s \<longrightarrow>
      sorted_wrt (\<lambda>earlier later. later - earlier > 10000) (diagnostic_times envs ui s)
      \<and> (\<forall>t \<in> set (diagnostic_times envs ui s). t - last_log_time s > 10000)"
    using diagnostic_times_spaced [of envs s ui] by blast
  from tick ranged run spaced show ?thesis
    by blast
qed

theorem absent_file_tick_rate_limited_witness:
  "file_time_of (absent_env 100) = 0
   \<and> file_time_of (absent_env 105) = 0
   \<and> file_time_of (absent_env 111) = 0
   \<and> clock_in_range (absent_env 100)
   \<and> clock_in_range (absent_env 105)
   \<and> clock_in_range (absent_env 111)
   \<and> log_time_in_range initial_state
   \<and> prints_waiting (snd (check_update_status (absent_env 100) sample_ui initial_state))
   \<and> current_status (fst (run_ticks [absent_env 100, absent_env 105, absent_env 111]
        sample_ui initial_state)) = initial_status
   \<and> diagnostic_times [absent_env 100, absent_env 105, absent_env 111] sample_ui initial_state
       = [100000, 111000]"
  using absent_file_tick_rate_limited
    [of "absent_env 100" sample_ui initial_state
        "[absent_env 100, absent_env 105, absent_env 111]"]
  by (simp add: file_time_of_def absent_env_def get_file_timestamp_def initial_state_def
      prints_waiting_def check_update_status_def Let_def waiting_message_def
      clock_in_range_def log_time_in_range_def int64_wrap_def)

lemma changed_tick_prefix:
  "file_time_of env \<noteq> 0 \<Longrightarrow> file_time_of env \<noteq> last_modified_time s \<Longrightarrow>
   last_modified_time (fst (check_update_status env ui s)) = file_time_of env
   \<and> take 3 (snd (check_update_status env ui s)) =
       [Call_stat UPDATE_JSON_PATH, Store_last_modified_time (file_time_of env),
        Call_fopen UPDATE_JSON_PATH ''rb'']"
  by (auto simp: file_time_of_def check_update_status_def get_file_timestamp_def Let_def
      read_file_contents_def split: option.splits)

lemma failed_read_tick:
  "file_time_of env \<noteq> 0 \<Longrightarrow> file_time_of env \<noteq> last_modified_time s \<Longrightarrow>
   fst (read_file_contents (fopen_answer env) UPDATE_JSON_PATH JSON_BUFFER_SIZE) = None \<Longrightarrow>
   check_update_status env ui s =
     (s\<lparr>last_modified_time := file_time_of env\<rparr>,
      [Call_stat UPDATE_JSON_PATH, Store_last_modified_time (file_time_of env)]
      @ snd (read_file_contents (fopen_answer env) UPDATE_JSON_PATH JSON_BUFFER_SIZE)
      @ [Call_printf read_error_message])"
  by (auto simp: file_time_of_def check_update_status_def get_file_timestamp_def Let_def
      split: option.splits prod.splits)

lemma read_trace_no_store:
  "filter is_status_store (snd (read_file_contents ans filepath max_size)) = []"
  by (simp add: read_file_contents_def Let_def split: option.splits)

lemma good_read_tick:
  "file_time_of env \<noteq> 0 \<Longrightarrow> file_time_of env \<noteq> last_modified_time s \<Longrightarrow>
   fst (read_file_contents (fopen_answer env) UPDATE_JSON_PATH JSON_BUFFER_SIZE) = Some buffer \<Longrightarrow>
   check_update_status env ui s =
     (s\<lparr>last_modified_time := file_time_of env,
        current_status := parse_fields (c_str buffer) (current_status s)\<rparr>,
      [Call_stat UPDATE_JSON_PATH, Store_last_modified_time (file_time_of env)]
      @ snd (read_file_contents (fopen_answer env) UPDATE_JSON_PATH JSON_BUFFER_SIZE)
      @ [Store_current_status (parse_fields (c_str buffer) (current_status s))]
      @ update_ui ui (parse_fields (c_str buffer) (current_status s))
      @ [Call_printf (status_message (parse_fields (c_str buffer) (current_status s)))])"
  by (auto simp: file_time_of_def check_update_status_def get_file_timestamp_def Let_def
      split: option.splits prod.splits)

text \<open>
  C3. On a tick whose timestamp is neither 0 nor the stored one, the store to
  \<open>last_modified_time\<close> comes right after \<^verbatim>\<open>stat\<close> and before the \<^verbatim>\<open>fopen\<close> of the
  read. If the read then fails, the tick ends with the read-error message, with
  \<open>current_status\<close> as it was and the new timestamp kept; every later tick that sees the
  same timestamp leaves the state alone and reads nothing.
\<close>

theorem changed_tick_stores_timestamp_before_read:
  "file_time_of env \<noteq> 0 \<and> file_time_of env \<noteq> last_modified_time s \<longrightarrow>
     last_modified_time (fst (check_update_status env ui s)) = file_time_of env
     \<and> take 3 (snd (check_update_status env ui s)) =
         [Call_stat UPDATE_JSON_PATH, Store_last_modified_time (file_time_of env),
          Call_fopen UPDATE_JSON_PATH ''rb'']
     \<and> (fst (read_file_contents (fopen_answer env) UPDATE_JSON_PATH JSON_BUFFER_SIZE) = None \<longrightarrow>
          last (snd (check_update_status env ui s)) = Call_printf read_error_message
          \<and> current_status (fst (check_update_status env ui s)) = current_status s
          \<and> status_stores (snd (check_update_status env ui s)) = []
          \<and> ((\<forall>e \<in> set later. file_time_of e = file_time_of env) \<longrightarrow>
               fst (run_ticks later ui (fst (check_update_status env ui s)))
                 = fst (check_update_status env ui s)
               \<and> read_calls (snd (run_ticks later ui (fst (check_update_status env ui s)))) = 0))"
proof (intro impI, elim conjE)
  assume nz: "file_time_of env \<noteq> 0" and changed: "file_time_of env \<noteq> last_modified_time s"
  let ?s1 = "fst (check_update_status env ui s)"
  note pre = changed_tick_prefix [OF nz changed, of ui]
  have failure: "fst (read_file_contents (fopen_answer env) UPDATE_JSON_PATH JSON_BUFFER_SIZE) = None \<longrightarrow>
          last (snd (check_update_status env ui s)) = Call_printf read_error_message
          \<and> current_status ?s1 = current_status s
          \<and> status_stores (snd (check_update_status env ui s)) = []"
    using failed_read_tick [OF nz changed, of ui]
    by (simp add: status_stores_def read_trace_no_store)
  have skip: "(\<forall>e \<in> set later. file_time_of e = file_time_of env) \<longrightarrow>
               fst (run_ticks later ui ?s1) = ?s1 \<and> read_calls (snd (run_ticks later ui ?s1)) = 0"
    using same_timestamp_run [of ?s1 later ui] pre nz by simp
  from pre failure skip
  show "last_modified_time ?s1 = file_time_of env
     \<and> take 3 (snd (check_update_status env ui s)) =
         [Call_stat UPDATE_JSON_PATH, Store_last_modified_time (file_time_of env),
          Call_fopen UPDATE_JSON_PATH ''rb'']
     \<and> (fst (read_file_contents (fopen_answer env) UPDATE_JSON_PATH JSON_BUFFER_SIZE) = None \<longrightarrow>
          last (snd (check_update_status env ui s)) = Call_printf read_error_message
          \<and> current_status ?s1 = current_status s
          \<and> status_stores (snd (check_update_status env ui s)) = []
          \<and> ((\<forall>e \<in> set later. file_time_of e = file_time_of env) \<longrightarrow>
               fst (run_ticks later ui ?s1) = ?s1
               \<and> read_calls (snd (run_ticks later ui ?s1)) = 0))"
    by blast
qed

theorem changed_tick_stores_timestamp_before_read_witness:
  "file_time_of (file_env 7 None) \<noteq> 0
   \<and> file_time_of (file_env 7 None) \<noteq> last_modified_time initial_state
   \<and> fst (read_file_contents (fopen_answer (file_env 7 None)) UPDATE_JSON_PATH JSON_BUFFER_SIZE) = None
   \<and> file_time_of (file_env 7 (Some default_json)) = file_time_of (file_env 7 None)
   \<and> last_modified_time (fst (check_update_status (file_env 7 None) sample_ui initial_state)) = 7
   \<and> current_status (fst (check_update_status (file_env 7 None) sample_ui initial_state))
       = initial_status
   \<and> read_calls (snd (run_ticks [file_env 7 (Some default_json), file_env 7 (Some default_json)]
        sample_ui (fst (check_update_status (file_env 7 None) sample_ui initial_state)))) = 0"
  using changed_tick_stores_timestamp_before_read
    [of "file_env 7 None" initial_state sample_ui
        "[file_env 7 (Some default_json), file_env 7 (Some default_json)]"]
  by (simp add: file_time_of_def file_env_def get_file_timestamp_def initial_state_def
      read_file_contents_def)

text \<open>
  C9. On a file of no bytes \<open>read_file_contents\<close> opens, reads and closes, and returns
  failure: it succeeds exactly when \<^verbatim>\<open>fread\<close> delivered at least one byte. A tick that
  finds such a file under a new timestamp prints the read-error message and leaves
  \<open>current_status\<close> as it was.
\<close>

theorem empty_file_is_read_failure:
  "read_file_contents (Some []) filepath max_size =
     (None, [Call_fopen filepath ''rb'', Call_fread (size_t_pred max_size), Call_fclose])
   \<and> (fst (read_file_contents (Some file_bytes) filepath max_size) \<noteq> None
        \<longleftrightarrow> length (take (size_t_pred max_size) file_bytes) > 0)
   \<and> (file_time_of env \<noteq> 0 \<and> file_time_of env \<noteq> last_modified_time s
        \<and> fopen_answer env = Some [] \<longrightarrow>
        current_status (fst (check_update_status env ui s)) = current_status s
        \<and> status_stores (snd (check_update_status env ui s)) = []
        \<and> last (snd (check_update_status env ui s)) = Call_printf read_error_message)"
proof -
  have empty: "read_file_contents (Some []) filepath max_size =
     (None, [Call_fopen filepath ''rb'', Call_fread (size_t_pred max_size), Call_fclose])"
    for filepath max_size
    by (simp add: read_file_contents_def)
  have iff: "fst (read_file_contents (Some file_bytes) filepath max_size) \<noteq> None
        \<longleftrightarrow> length (take (size_t_pred max_size) file_bytes) > 0"
    by (simp add: read_file_contents_def Let_def)
  have tick: "current_status (fst (check_update_status env ui s)) = current_status s
        \<and> status_stores (snd (check_update_status env ui s)) = []
        \<and> last (snd (check_update_status env ui s)) = Call_printf read_error_message"
    if "file_time_of env \<noteq> 0" "file_time_of env \<noteq> last_modified_time s"
      "fopen_answer env = Some []"
    using failed_read_tick [OF that(1,2), of ui] that(3)
    by (simp add: empty status_stores_def)
  from empty iff tick show ?thesis by blast
qed

theorem empty_file_is_read_failure_witness:
  "file_time_of (file_env 7 (Some [])) \<noteq> 0
   \<and> file_time_of (file_env 7 (Some [])) \<noteq> last_modified_time initial_state
   \<and> fopen_answer (file_env 7 (Some [])) = Some []
   \<and> current_status (fst (check_update_status (file_env 7 (Some [])) sample_ui initial_state))
       = initial_status
   \<and> last (snd (check_update_status (file_env 7 (Some [])) sample_ui initial_state))
       = Call_printf read_error_message"
  using empty_file_is_read_failure [of _ _ _ "file_env 7 (Some [])" initial_state sample_ui]
  by (simp add: file_time_of_def file_env_def get_file_timestamp_def initial_state_def)

section \<open>Properties of the parse\<close>

lemma copy_value_no_overrun: "0 < max_len \<Longrightarrow> copy_value src len max_len \<noteq> Overrun"
  by (simp add: copy_value_def)

lemma parse_json_value_no_overrun: "0 < max_len \<Longrightarrow> parse_json_value json key max_len \<noteq> Overrun"
  by (simp add: parse_json_value_def Let_def copy_value_no_overrun split: option.splits)

lemma atoi_range: "- 2147483648 \<le> atoi s \<and> atoi s \<le> 2147483647"
  by (simp add: atoi_def int32_wrap_def)

lemma atoi_in_range:
  "- 2147483648 \<le> strtol s \<Longrightarrow> strtol s \<le> 2147483647 \<Longrightarrow> atoi s = strtol s"
  by (simp add: atoi_def int32_wrap_def)

lemma parse_fields_progress:
  "progress (parse_fields text st0) =
     (case parse_json_value text ''progress'' 32 of
        Found value_str \<Rightarrow> atoi value_str | NotFound \<Rightarrow> progress st0 | Overrun \<Rightarrow> progress st0)"
  by (simp add: parse_fields_def Let_def split: parse_result.splits)

lemma parse_fields_status:
  "status (parse_fields text st0) =
     (case parse_json_value text ''status'' 64 of
        Found v \<Rightarrow> v | NotFound \<Rightarrow> status st0 | Overrun \<Rightarrow> status st0)"
  by (simp add: parse_fields_def Let_def split: parse_result.splits)

lemma parse_fields_step:
  "step (parse_fields text st0) =
     (case parse_json_value text ''step'' 64 of
        Found v \<Rightarrow> v | NotFound \<Rightarrow> step st0 | Overrun \<Rightarrow> step st0)"
  by (simp add: parse_fields_def Let_def split: parse_result.splits)

text \<open>
  C2. On a tick that reads the file, the new status is computed from a copy of
  \<open>current_status\<close>: each field is the extracted value where \<open>parse_json_value\<close> finds
  one (the progress through \<open>atoi\<close>) and the previous value where it does not; with the
  lengths 32 and 64 the call has no third outcome. \<open>current_status\<close> is written once in
  the tick, with the finished value. The progress that \<open>atoi\<close> delivers is an
  \<^verbatim>\<open>int\<close> of 32 bits: the number written where that fits, its low 32 bits otherwise,
  as for \<open>2147483648\<close>, stored as \<open>-2147483648\<close>.
\<close>

theorem parsed_tick_replaces_status_fieldwise:
  "(file_time_of env \<noteq> 0 \<and> file_time_of env \<noteq> last_modified_time s
      \<and> fst (read_file_contents (fopen_answer env) UPDATE_JSON_PATH JSON_BUFFER_SIZE) = Some buffer \<longrightarrow>
      current_status (fst (check_update_status env ui s))
        = parse_fields (c_str buffer) (current_status s)
      \<and> status_stores (snd (check_update_status env ui s))
        = [Store_current_status (parse_fields (c_str buffer) (current_status s))])
   \<and> progress (parse_fields text st0) =
       (case parse_json_value text ''progress'' 32 of
          Found value_str \<Rightarrow> atoi value_str | NotFound \<Rightarrow> progress st0 | Overrun \<Rightarrow> progress st0)
   \<and> status (parse_fields text st0) =
       (case parse_json_value text ''status'' 64 of
          Found v \<Rightarrow> v | NotFound \<Rightarrow> status st0 | Overrun \<Rightarrow> status st0)
   \<and> step (parse_fields text st0) =
       (case parse_json_value text ''step'' 64 of
          Found v \<Rightarrow> v | NotFound \<Rightarrow> step st0 | Overrun \<Rightarrow> step st0)
   \<and> parse_json_value text ''progress'' 32 \<noteq> Overrun
   \<and> parse_json_value text ''status'' 64 \<noteq> Overrun
   \<and> parse_json_value text ''step'' 64 \<noteq> Overrun
   \<and> - 2147483648 \<le> atoi value_str \<and> atoi value_str \<le> 2147483647
   \<and> (- 2147483648 \<le> strtol value_str \<and> strtol value_str \<le> 2147483647 \<longrightarrow>
        atoi value_str = strtol value_str)
   \<and> atoi ''2147483648'' = - 2147483648"
proof -
  have tick: "current_status (fst (check_update_status env ui s))
        = parse_fields (c_str buffer) (current_status s)
      \<and> status_stores (snd (check_update_status env ui s))
        = [Store_current_status (parse_fields (c_str buffer) (current_status s))]"
    if "file_time_of env \<noteq> 0" "file_time_of env \<noteq> last_modified_time s"
      "fst (read_file_contents (fopen_answer env) UPDATE_JSON_PATH JSON_BUFFER_SIZE) = Some buffer"
    using good_read_tick [OF that, of ui]
    by (simp add: status_stores_def read_trace_no_store update_ui_no_store)
  have wide: "atoi ''2147483648'' = - 2147483648"
    by code_simp
  from tick wide atoi_range [of value_str] atoi_in_range [of value_str] show ?thesis
    by (simp add: parse_fields_progress parse_fields_status parse_fields_step
        parse_json_value_no_overrun)
qed

theorem parsed_tick_replaces_status_fieldwise_witness:
  \<open>file_time_of (file_env 7 (Some ''{"progress": 42}'')) \<noteq> 0
   \<and> file_time_of (file_env 7 (Some ''{"progress": 42}'')) \<noteq> last_modified_time initial_state
   \<and> fst (read_file_contents (fopen_answer (file_env 7 (Some ''{"progress": 42}'')))
        UPDATE_JSON_PATH JSON_BUFFER_SIZE) = Some ''{"progress": 42}''
   \<and> current_status (fst (check_update_status (file_env 7 (Some ''{"progress": 42}''))
        sample_ui initial_state))
       = \<lparr>progress = 42, status = ''System Ready'', step = ''Waiting for update''\<rparr>
   \<and> - 2147483648 \<le> strtol ''42'' \<and> strtol ''42'' \<le> 2147483647
   \<and> atoi ''42'' = 42\<close>
proof -
  have small: "strtol ''42'' = 42"
    by code_simp
  have fields: \<open>parse_fields (c_str ''{"progress": 42}'') initial_status
      = \<lparr>progress = 42, status = ''System Ready'', step = ''Waiting for update''\<rparr>\<close>
    by (simp add: parse_fields_def parse_json_value_def snprintf_str_def strchr_def
        copy_value_def is_space_char_def is_token_end_def c_str_def initial_status_def
        atoi_def strtol_def int32_wrap_def atoi_digits_def isspace_def is_digit_def
        digit_val_def)
  have rd: \<open>fst (read_file_contents (Some ''{"progress": 42}'') UPDATE_JSON_PATH JSON_BUFFER_SIZE)
      = Some ''{"progress": 42}''\<close>
    by (simp add: read_file_contents_def JSON_BUFFER_SIZE_def size_t_pred_def)
  show ?thesis
    using parsed_tick_replaces_status_fieldwise
      [of \<open>file_env 7 (Some ''{"progress": 42}'')\<close> initial_state \<open>''{"progress": 42}''\<close> sample_ui
          _ _ \<open>''42''\<close>]
      fields rd small
    by (simp add: file_time_of_def file_env_def get_file_timestamp_def initial_state_def)
qed

section \<open>Bootstrap\<close>

lemma default_json_progress: "parse_json_value default_json ''progress'' 32 = Found ''0''"
  by (simp add: default_json_def parse_json_value_def snprintf_str_def strchr_def
      copy_value_def is_space_char_def is_token_end_def)

lemma default_json_status: "parse_json_value default_json ''status'' 64 = Found ''System Ready''"
  by (simp add: default_json_def parse_json_value_def snprintf_str_def strchr_def
      copy_value_def is_space_char_def is_token_end_def)

lemma default_json_step:
  "parse_json_value default_json ''step'' 64 = Found ''Waiting for update''"
  by (simp add: default_json_def parse_json_value_def snprintf_str_def strchr_def
      copy_value_def is_space_char_def is_token_end_def)

lemma atoi_zero: "atoi ''0'' = 0"
  by code_simp

lemma c_str_default_json: "c_str default_json = default_json"
  by (simp add: c_str_def default_json_def)

lemma ensure_existing:
  "fst (get_file_timestamp stat_ans UPDATE_JSON_PATH) \<noteq> 0 \<Longrightarrow>
     ensure_update_json_exists stat_ans wenv = [Call_stat UPDATE_JSON_PATH]"
  by (auto simp: ensure_update_json_exists_def get_file_timestamp_def split: option.splits)

lemma ensure_missing:
  "fst (get_file_timestamp stat_ans UPDATE_JSON_PATH) = 0 \<Longrightarrow>
     ensure_update_json_exists stat_ans wenv =
       [Call_stat UPDATE_JSON_PATH]
       @ snd (write_file_contents wenv UPDATE_JSON_PATH default_json)
       @ [Call_printf
            (if fst (write_file_contents wenv UPDATE_JSON_PATH default_json)
             then ''Created default update status file at '' @ UPDATE_JSON_PATH @ ''\<newline>''
             else ''Error: Could not create '' @ UPDATE_JSON_PATH @ ''\<newline>'')]"
  by (auto simp: ensure_update_json_exists_def get_file_timestamp_def split_def
      split: option.splits)

lemma write_trace_fwrite:
  "Call_fwrite c \<in> set (snd (write_file_contents wenv filepath content))
     \<longleftrightarrow> c = content \<and> (fopen_first wenv \<or> fopen_retry wenv)"
  by (auto simp: write_file_contents_def)

text \<open>
  C5. With a timestamp other than 0, \<open>ensure_update_json_exists\<close> only asks for the
  timestamp. Whatever it writes, it writes when the timestamp is 0, and it is the default
  content; it does write it then if the file opens. Extracting the three fields from
  the default content gives \<open>0\<close>, \<open>System Ready\<close> and \<open>Waiting for update\<close>, so the
  parse of the default content yields, from any previous status, the initial value of
  \<open>current_status\<close>.
\<close>

theorem bootstrap_default_round_trip:
  "(fst (get_file_timestamp stat_ans UPDATE_JSON_PATH) \<noteq> 0 \<longrightarrow>
      ensure_update_json_exists stat_ans wenv = [Call_stat UPDATE_JSON_PATH])
   \<and> (Call_fwrite content \<in> set (ensure_update_json_exists stat_ans wenv) \<longrightarrow>
        fst (get_file_timestamp stat_ans UPDATE_JSON_PATH) = 0 \<and> content = default_json)
   \<and> (fst (get_file_timestamp stat_ans UPDATE_JSON_PATH) = 0
        \<and> (fopen_first wenv \<or> fopen_retry wenv) \<longrightarrow>
        Call_fwrite default_json \<in> set (ensure_update_json_exists stat_ans wenv))
   \<and> parse_json_value default_json ''progress'' 32 = Found ''0''
   \<and> atoi ''0'' = 0
   \<and> parse_json_value default_json ''status'' 64 = Found ''System Ready''
   \<and> parse_json_value default_json ''step'' 64 = Found ''Waiting for update''
   \<and> parse_fields (c_str default_json) st0 = current_status initial_state
   \<and> current_status initial_state =
       \<lparr>progress = 0, status = ''System Ready'', step = ''Waiting for update''\<rparr>"
proof -
  have existing: "fst (get_file_timestamp stat_ans UPDATE_JSON_PATH) \<noteq> 0 \<longrightarrow>
      ensure_update_json_exists stat_ans wenv = [Call_stat UPDATE_JSON_PATH]"
    by (simp add: ensure_existing)
  have only: "Call_fwrite content \<in> set (ensure_update_json_exists stat_ans wenv) \<longrightarrow>
        fst (get_file_timestamp stat_ans UPDATE_JSON_PATH) = 0 \<and> content = default_json"
  proof (cases "fst (get_file_timestamp stat_ans UPDATE_JSON_PATH) = 0")
    case True
    then show ?thesis by (simp add: ensure_missing write_trace_fwrite)
  next
    case False
    then show ?thesis by (simp add: ensure_existing)
  qed
  have writes: "fst (get_file_timestamp stat_ans UPDATE_JSON_PATH) = 0
        \<and> (fopen_first wenv \<or> fopen_retry wenv) \<longrightarrow>
        Call_fwrite default_json \<in> set (ensure_update_json_exists stat_ans wenv)"
    by (simp add: ensure_missing write_trace_fwrite)
  have fields: "parse_fields (c_str default_json) st0 = current_status initial_state"
    by (simp add: c_str_default_json parse_fields_def default_json_progress
        default_json_status default_json_step atoi_zero initial_state_def initial_status_def)
  have init: "current_status initial_state =
       \<lparr>progress = 0, status = ''System Ready'', step = ''Waiting for update''\<rparr>"
    by (simp add: initial_state_def initial_status_def)
  from existing only writes fields init show ?thesis
    by (simp only: default_json_progress default_json_status default_json_step atoi_zero
        simp_thms)
qed

theorem bootstrap_default_round_trip_witness:
  "fst (get_file_timestamp (Some 7) UPDATE_JSON_PATH) \<noteq> 0
   \<and> ensure_update_json_exists (Some 7) (write_ok 86) = [Call_stat UPDATE_JSON_PATH]
   \<and> fst (get_file_timestamp None UPDATE_JSON_PATH) = 0
   \<and> fopen_first (write_ok 86)
   \<and> Call_fwrite default_json \<in> set (ensure_update_json_exists None (write_ok 86))"
  using bootstrap_default_round_trip [of "Some 7" "write_ok 86"]
    bootstrap_default_round_trip [of None "write_ok 86" default_json]
  by (simp add: get_file_timestamp_def write_ok_def)

section \<open>The simulator\<close>

lemma num_phases_8: "num_phases = 8"
  by (simp add: num_phases_def update_steps_def)

lemma sim_progress_phases:
  "list_all (\<lambda>k. sim_progress_raw (int k) = int (k * 100 div 8)
      \<and> sim_progress (int k) = int (k * 100 div 8)) [0..<8]"
  by code_simp

lemma sim_json_progress_phases:
  "list_all (\<lambda>k. parse_json_value (sim_json (int (k * 100 div 8)) (update_steps ! k))
      ''progress'' 32 = Found (fmt_d (int (k * 100 div 8)))) [0..<8]"
  by code_simp

lemma atoi_fmt_d_phases:
  "list_all (\<lambda>k. atoi (fmt_d (int (k * 100 div 8))) = int (k * 100 div 8)) [0..<8]"
  by code_simp

lemma sim_json_status_phases:
  "list_all (\<lambda>k. parse_json_value (sim_json (int (k * 100 div 8)) (update_steps ! k))
      ''status'' 64 = Found ''System Updating...'') [0..<8]"
  by code_simp

lemma sim_json_step_phases:
  "list_all (\<lambda>k. parse_json_value (sim_json (int (k * 100 div 8)) (update_steps ! k))
      ''step'' 64 = Found (update_steps ! k)) [0..<8]"
  by code_simp

lemma sim_progress_phase:
  "k < 8 \<Longrightarrow> sim_progress_raw (int k) = int (k * 100 div 8)
     \<and> sim_progress (int k) = int (k * 100 div 8)"
  using sim_progress_phases by (simp add: list_all_iff)

lemma simulate_update_cycle_phase:
  assumes "k < 8"
  shows "simulate_update_cycle wenv (int k) =
     Some (int (Suc k mod 8),
           snd (write_file_contents wenv UPDATE_JSON_PATH
                  (sim_json (int (k * 100 div 8)) (update_steps ! k))))"
proof -
  have next_phase: "(if int k + 1 \<ge> 8 then 0 else int k + 1) = int (Suc k mod 8)"
    using assms by (cases "k = 7") simp_all
  from assms next_phase show ?thesis
    by (simp add: simulate_update_cycle_def num_phases_8 sim_progress_phase Let_def split_def)
qed

lemma simulate_run_phase:
  "k < 8 \<Longrightarrow>
     map_option fst (simulate_run wenvs (int k)) = Some (int ((k + length wenvs) mod 8))"
proof (induction wenvs arbitrary: k)
  case Nil
  then show ?case by simp
next
  case (Cons wenv wenvs)
  have "Suc k mod 8 < 8" by simp
  from Cons.IH [OF this]
  have "map_option fst (simulate_run wenvs (int (Suc k mod 8)))
          = Some (int ((Suc k mod 8 + length wenvs) mod 8))" .
  moreover have "(Suc k mod 8 + length wenvs) mod 8 = (k + length (wenv # wenvs)) mod 8"
    by (simp add: mod_add_left_eq)
  ultimately show ?case
    using simulate_update_cycle_phase [OF Cons.prems, of wenv]
    by (auto split: option.splits)
qed

text \<open>
  C6. Started at phase 0, the simulator is at phase \<open>n mod 8\<close> after \<open>n\<close> ticks, so at
  phase 0 again after 8. The tick at phase \<open>k < 8\<close> hands \<open>write_file_contents\<close> the
  blob of progress \<open>k * 100 div 8\<close> and step \<open>update_steps ! k\<close>, which is written when
  the file opens, and moves to phase \<open>(k + 1) mod 8\<close>. From that blob the extractor
  returns the decimal digits of \<open>k * 100 div 8\<close>, \<open>System Updating...\<close> and the label.
\<close>

theorem simulator_cycle:
  "map_option fst (simulate_run wenvs 0) = Some (int (length wenvs mod 8))
   \<and> (k < 8 \<longrightarrow>
        simulate_update_cycle wenv (int k) =
          Some (int (Suc k mod 8),
                snd (write_file_contents wenv UPDATE_JSON_PATH
                       (sim_json (int (k * 100 div 8)) (update_steps ! k))))
        \<and> (fopen_first wenv \<or> fopen_retry wenv \<longrightarrow>
             Call_fwrite (sim_json (int (k * 100 div 8)) (update_steps ! k))
               \<in> set (snd (write_file_contents wenv UPDATE_JSON_PATH
                       (sim_json (int (k * 100 div 8)) (update_steps ! k)))))
        \<and> parse_json_value (sim_json (int (k * 100 div 8)) (update_steps ! k)) ''progress'' 32
            = Found (fmt_d (int (k * 100 div 8)))
        \<and> atoi (fmt_d (int (k * 100 div 8))) = int (k * 100 div 8)
        \<and> parse_json_value (sim_json (int (k * 100 div 8)) (update_steps ! k)) ''status'' 64
            = Found ''System Updating...''
        \<and> parse_json_value (sim_json (int (k * 100 div 8)) (update_steps ! k)) ''step'' 64
            = Found (update_steps ! k))"
proof -
  have run: "map_option fst (simulate_run wenvs 0) = Some (int (length wenvs mod 8))"
    using simulate_run_phase [of 0 wenvs] by simp
  have tick: "simulate_update_cycle wenv (int k) =
          Some (int (Suc k mod 8),
                snd (write_file_contents wenv UPDATE_JSON_PATH
                       (sim_json (int (k * 100 div 8)) (update_steps ! k))))" if "k < 8"
    using that by (rule simulate_update_cycle_phase)
  have p: "parse_json_value (sim_json (int (k * 100 div 8)) (update_steps ! k)) ''progress'' 32
            = Found (fmt_d (int (k * 100 div 8)))" if "k < 8"
    using that sim_json_progress_phases by (simp add: list_all_iff)
  have a: "atoi (fmt_d (int (k * 100 div 8))) = int (k * 100 div 8)" if "k < 8"
    using that atoi_fmt_d_phases by (simp add: list_all_iff)
  have st: "parse_json_value (sim_json (int (k * 100 div 8)) (update_steps ! k)) ''status'' 64
            = Found ''System Updating...''" if "k < 8"
    using that sim_json_status_phases by (simp add: list_all_iff)
  have sp: "parse_json_value (sim_json (int (k * 100 div 8)) (update_steps ! k)) ''step'' 64
            = Found (update_steps ! k)" if "k < 8"
    using that sim_json_step_phases by (simp add: list_all_iff)
  from run tick p a st sp show ?thesis
    by (simp add: write_trace_fwrite)
qed

theorem simulator_cycle_witness:
  "(3::nat) < 8
   \<and> fopen_first (write_ok 90)
   \<and> simulate_update_cycle (write_ok 90) 3 =
       Some (4, snd (write_file_contents (write_ok 90) UPDATE_JSON_PATH
                       (sim_json 37 ''Installing updates'')))
   \<and> Call_fwrite (sim_json 37 ''Installing updates'')
       \<in> set (snd (write_file_contents (write_ok 90) UPDATE_JSON_PATH
                       (sim_json 37 ''Installing updates'')))
   \<and> parse_json_value (sim_json 37 ''Installing updates'') ''progress'' 32 = Found ''37''
   \<and> parse_json_value (sim_json 37 ''Installing updates'') ''step'' 64
       = Found ''Installing updates''"
proof -
  have digits: "fmt_d 37 = ''37''"
    by code_simp
  show ?thesis
    using simulator_cycle [of "[]" 3 "write_ok 90"]
    by (simp add: write_ok_def update_steps_def digits)
qed

lemma progress_values_phases:
  "list_all (\<lambda>k. int (k * 100 div 8) \<in> {0, 12, 25, 37, 50, 62, 75, 87}
      \<and> int (k * 100 div 8) \<le> 87) [0..<8]"
  by code_simp

text \<open>
  C10. Every run of the simulator from phase 0 goes through, and ends at a phase \<open>p\<close>
  from 0 to 7. There the quotient \<open>(p * 100) / 8\<close> is not above 100, so the clamp leaves
  it alone; the progress the next tick writes is that quotient, one of 0, 12, 25, 37, 50,
  62, 75 and 87, never 100. The last label, \<open>Update complete.\<close>, goes out with 87.
\<close>

theorem simulator_progress_never_100:
  "simulate_run wenvs 0 \<noteq> None
   \<and> (map_option fst (simulate_run wenvs 0) = Some p \<longrightarrow>
        0 \<le> p \<and> p < 8
        \<and> sim_progress_raw p = (p * 100) div 8
        \<and> \<not> sim_progress_raw p > 100
        \<and> sim_progress p = sim_progress_raw p
        \<and> sim_progress p \<in> {0, 12, 25, 37, 50, 62, 75, 87}
        \<and> sim_progress p \<noteq> 100
        \<and> map_option snd (simulate_update_cycle wenv p) =
            Some (snd (write_file_contents wenv UPDATE_JSON_PATH
                         (sim_json (sim_progress p) (update_steps ! nat p)))))
   \<and> update_steps ! 7 = ''Update complete.''
   \<and> length update_steps = 8
   \<and> sim_progress 7 = 87
   \<and> simulate_update_cycle wenv 7 =
       Some (0, snd (write_file_contents wenv UPDATE_JSON_PATH
                       (sim_json 87 ''Update complete.'')))"
proof -
  have phase: "map_option fst (simulate_run wenvs 0) = Some (int (length wenvs mod 8))"
    using simulate_run_phase [of 0 wenvs] by simp
  then have total: "simulate_run wenvs 0 \<noteq> None"
    by auto
  have reach: "0 \<le> p \<and> p < 8
        \<and> sim_progress_raw p = (p * 100) div 8
        \<and> \<not> sim_progress_raw p > 100
        \<and> sim_progress p = sim_progress_raw p
        \<and> sim_progress p \<in> {0, 12, 25, 37, 50, 62, 75, 87}
        \<and> sim_progress p \<noteq> 100
        \<and> map_option snd (simulate_update_cycle wenv p) =
            Some (snd (write_file_contents wenv UPDATE_JSON_PATH
                         (sim_json (sim_progress p) (update_steps ! nat p))))"
    if "map_option fst (simulate_run wenvs 0) = Some p"
  proof -
    define k where "k = length wenvs mod 8"
    have k: "k < 8" and p: "p = int k"
      using that phase by (simp_all add: k_def)
    define q where "q = int (k * 100 div 8)"
    have raw: "sim_progress_raw (int k) = q" and clamped: "sim_progress (int k) = q"
      using sim_progress_phase [OF k] by (simp_all add: q_def)
    have quotient: "q = (int k * 100) div 8"
      by (simp add: q_def zdiv_int)
    have among: "q \<in> {0, 12, 25, 37, 50, 62, 75, 87}" and bound: "q \<le> 87"
      using k progress_values_phases by (simp_all add: list_all_iff q_def)
    have tick: "map_option snd (simulate_update_cycle wenv (int k)) =
        Some (snd (write_file_contents wenv UPDATE_JSON_PATH (sim_json q (update_steps ! k))))"
      using simulate_update_cycle_phase [OF k, of wenv] by (simp add: q_def)
    from k quotient among bound tick show ?thesis
      unfolding p raw clamped by simp
  qed
  have last_label: "update_steps ! 7 = ''Update complete.''" and len: "length update_steps = 8"
    by (simp_all add: update_steps_def)
  have p7: "sim_progress 7 = 87"
    using sim_progress_phase [of 7] by simp
  have tick7: "simulate_update_cycle wenv 7 =
       Some (0, snd (write_file_contents wenv UPDATE_JSON_PATH
                       (sim_json 87 ''Update complete.'')))"
    using simulate_update_cycle_phase [of 7 wenv] last_label by simp
  from total reach last_label len p7 tick7 show ?thesis
    by blast
qed

theorem simulator_progress_never_100_witness:
  "map_option fst (simulate_run [write_ok 90, write_denied, write_ok 3] 0) = Some 3
   \<and> sim_progress 3 = 37
   \<and> \<not> sim_progress_raw 3 > 100"
proof -
  have "map_option fst (simulate_run [write_ok 90, write_denied, write_ok 3] 0) = Some 3"
    using simulate_run_phase [of 0 "[write_ok 90, write_denied, write_ok 3]"] by simp
  moreover have "sim_progress_raw 3 = 37"
    using sim_progress_phase [of 3] by simp
  ultimately show ?thesis
    using simulator_progress_never_100 [of "[write_ok 90, write_denied, write_ok 3]" 3]
    by simp
qed

section \<open>Writing the file\<close>

text \<open>
  C8, at an open that fails twice for the path of the target build: between the two
  \<^verbatim>\<open>fopen\<close> calls the code makes the directory \<open>tmp\<close>, which is not the parent
  directory of the path, and it returns failure.
\<close>

theorem write_retry_makes_tmp_directory:
  "write_file_contents write_denied UPDATE_JSON_PATH_target default_json =
     (False, [Call_fopen UPDATE_JSON_PATH_target ''wb'', Call_mkdir ''tmp'' 0x1FF,
              Call_fopen UPDATE_JSON_PATH_target ''wb''])
   \<and> spec_parent_directory UPDATE_JSON_PATH_target = ''/var/lib/update_tracker''
   \<and> spec_parent_directory UPDATE_JSON_PATH_target \<noteq> ''tmp''"
  by (simp add: write_file_contents_def write_denied_def UPDATE_JSON_PATH_target_def
      spec_parent_directory_def)

section \<open>The field extractor against the scan of the specification\<close>

lemma find_map: "List.find P (map f xs) = map_option f (List.find (\<lambda>x. P (f x)) xs)"
  by (induction xs) simp_all

lemma prefix_take_eq: "prefix needle s \<longleftrightarrow> take (length needle) s = needle"
  by (metis append_eq_conv_conj prefix_def take_is_prefix)

lemma strstr_first_occurrence:
  "strstr payload needle = map_option (\<lambda>i. drop i payload) (spec_first_occurrence payload needle)"
proof (induction payload)
  case Nil
  show ?case by (auto simp: spec_first_occurrence_def)
next
  case (Cons c cs)
  have idx: "[0..<Suc (length (c # cs))] = 0 # map Suc [0..<Suc (length cs)]"
    by (simp add: map_Suc_upt upt_conv_Cons del: upt_Suc)
  show ?case
    unfolding spec_first_occurrence_def idx
    using Cons.IH
    by (simp add: find_map prefix_take_eq spec_first_occurrence_def option.map_comp o_def
        del: upt_Suc)
qed

lemma strchr_conv:
  "strchr s ch = (if ch \<in> set s then Some (dropWhile (\<lambda>x. x \<noteq> ch) s) else None)"
proof (cases "ch \<in> set s")
  case True
  then have "dropWhile (\<lambda>x. x \<noteq> ch) s \<noteq> []"
    by (auto simp: dropWhile_eq_Nil_conv)
  with True show ?thesis
    by (cases "dropWhile (\<lambda>x. x \<noteq> ch) s") (simp_all add: strchr_def del: dropWhile_eq_Nil_conv)
next
  case False
  then have "dropWhile (\<lambda>x. x \<noteq> ch) s = []"
    by (auto simp: dropWhile_eq_Nil_conv)
  with False show ?thesis
    by (simp add: strchr_def del: dropWhile_eq_Nil_conv)
qed

lemma length_minus_dropWhile:
  "length s - length (dropWhile P s) = length (takeWhile P s)"
  by (metis add_diff_cancel_right' length_append takeWhile_dropWhile_id)

lemma copy_value_takeWhile:
  "0 < max_len \<Longrightarrow>
     copy_value s (length s - length (dropWhile P s)) max_len
       = Found (take (max_len - 1) (takeWhile P s))"
proof -
  assume pos: "0 < max_len"
  let ?n = "length (takeWhile P s)"
  have tw: "takeWhile P s = take ?n s" by (rule takeWhile_eq_take)
  show ?thesis
  proof (cases "?n \<ge> max_len")
    case True
    then have "take (max_len - 1) (take ?n s) = take (max_len - 1) s"
      by (simp add: min_def)
    with True pos tw show ?thesis
      by (simp add: copy_value_def length_minus_dropWhile)
  next
    case False
    then have "take (max_len - 1) (takeWhile P s) = takeWhile P s"
      by simp
    with False pos tw show ?thesis
      by (simp add: copy_value_def length_minus_dropWhile)
  qed
qed

lemma is_space_char_spec: "is_space_char = spec_is_whitespace"
  by (auto simp: is_space_char_def spec_is_whitespace_def fun_eq_iff)

lemma is_token_end_spec: "is_token_end = spec_ends_bare_token"
  by (auto simp: is_token_end_def spec_ends_bare_token_def fun_eq_iff)

lemma search_key_quoted:
  "length key \<le> 61 \<Longrightarrow> snprintf_str 64 ([CHR 0x22] @ key @ [CHR 0x22]) = spec_quoted key"
  by (simp add: snprintf_str_def spec_quoted_def)

lemma value_stage:
  assumes "0 < max_len"
  shows "(if v \<noteq> [] \<and> hd v = CHR 0x22 then
          (case strchr (tl v) (CHR 0x22) of
             None \<Rightarrow> NotFound
           | Some value_end \<Rightarrow> copy_value (tl v) (length (tl v) - length value_end) max_len)
        else copy_value v (length v - length (dropWhile (\<lambda>x. \<not> spec_ends_bare_token x) v))
               max_len)
     = (case (case v of
               [] \<Rightarrow> Some []
             | c # body \<Rightarrow>
                 if c = CHR 0x22 then
                   (if CHR 0x22 \<notin> set body then None
                    else Some (take (max_len - 1) (takeWhile (\<lambda>x. x \<noteq> CHR 0x22) body)))
                 else Some (take (max_len - 1) (takeWhile (\<lambda>x. \<not> spec_ends_bare_token x) v)))
        of None \<Rightarrow> NotFound | Some r \<Rightarrow> Found r)"
proof (cases v)
  case Nil
  with assms show ?thesis by (simp add: copy_value_def)
next
  case (Cons c body)
  show ?thesis
  proof (cases "c = CHR 0x22")
    case True
    with Cons assms show ?thesis
      by (simp add: strchr_conv copy_value_takeWhile)
  next
    case False
    have "copy_value (c # body)
            (length (c # body) - length (dropWhile (\<lambda>x. \<not> spec_ends_bare_token x) (c # body)))
            max_len
          = Found (take (max_len - 1) (takeWhile (\<lambda>x. \<not> spec_ends_bare_token x) (c # body)))"
      using assms by (rule copy_value_takeWhile)
    with False Cons show ?thesis
      by simp
  qed
qed

lemma parse_json_value_refines:
  assumes "0 < max_len" "length key \<le> 61"
  shows "parse_json_value json key max_len =
     (case spec_extract json key max_len of None \<Rightarrow> NotFound | Some v \<Rightarrow> Found v)"
proof (cases "spec_first_occurrence json (spec_quoted key)")
  case None
  then show ?thesis
    using assms(2)
    by (simp add: parse_json_value_def spec_extract_def search_key_quoted [simplified]
        strstr_first_occurrence)
next
  case (Some i)
  let ?after_name = "drop (i + length (spec_quoted key)) json"
  show ?thesis
  proof (cases "CHR '':'' \<in> set ?after_name")
    case False
    with Some show ?thesis
      using assms(2)
      by (simp add: parse_json_value_def spec_extract_def search_key_quoted [simplified]
          strstr_first_occurrence strchr_conv add.commute)
  next
    case True
    let ?v = "dropWhile spec_is_whitespace (tl (dropWhile (\<lambda>x. x \<noteq> CHR '':'') ?after_name))"
    have sk: "snprintf_str 64 ([CHR 0x22] @ key @ [CHR 0x22]) = spec_quoted key"
      using assms(2) by (rule search_key_quoted)
    have st: "strstr json (spec_quoted key) = Some (drop i json)"
      using Some by (simp add: strstr_first_occurrence)
    have dr: "drop (length (spec_quoted key)) (drop i json) = ?after_name"
      by (simp add: add.commute)
    have sc: "strchr ?after_name (CHR '':'') = Some (dropWhile (\<lambda>x. x \<noteq> CHR '':'') ?after_name)"
      using True by (simp add: strchr_conv)
    have code: "parse_json_value json key max_len =
       (if ?v \<noteq> [] \<and> hd ?v = CHR 0x22 then
          (case strchr (tl ?v) (CHR 0x22) of
             None \<Rightarrow> NotFound
           | Some value_end \<Rightarrow> copy_value (tl ?v) (length (tl ?v) - length value_end) max_len)
        else copy_value ?v (length ?v - length (dropWhile (\<lambda>x. \<not> spec_ends_bare_token x) ?v))
               max_len)"
      unfolding parse_json_value_def sk Let_def st option.case dr sc is_space_char_spec
        is_token_end_spec
      by (rule refl)
    have spec: "spec_extract json key max_len =
       (case ?v of
          [] \<Rightarrow> Some []
        | c # body \<Rightarrow>
            if c = CHR 0x22 then
              (if CHR 0x22 \<notin> set body then None
               else Some (take (max_len - 1) (takeWhile (\<lambda>x. x \<noteq> CHR 0x22) body)))
            else Some (take (max_len - 1) (takeWhile (\<lambda>x. \<not> spec_ends_bare_token x) ?v)))"
      unfolding spec_extract_def Some option.case Let_def
      using True by (simp only: not_True_eq_False if_False)
    show ?thesis
      unfolding code spec by (rule value_stage [OF assms(1)])
  qed
qed


lemma digit_not_delimiter:
  "is_digit c \<Longrightarrow> \<not> spec_is_whitespace c \<and> \<not> spec_ends_bare_token c \<and> c \<noteq> CHR 0x22"
  by (auto simp: is_digit_def spec_is_whitespace_def spec_ends_bare_token_def)

lemma bare_integer_extracted:
  assumes json: "json = pre @ spec_quoted key @ '': '' @ N @ rest"
    and first: "spec_first_occurrence json (spec_quoted key) = Some (length pre)"
    and key: "length key \<le> 61"
    and N: "N \<noteq> []" "\<forall>c \<in> set N. is_digit c"
    and rest: "rest = [] \<or> is_token_end (hd rest)"
    and len: "length N < max_len"
  shows "parse_json_value json key max_len = Found N"
proof -
  obtain d ds where Ncons: "N = d # ds"
    using N(1) by (cases N) auto
  have d: "\<not> spec_is_whitespace d" "d \<noteq> CHR 0x22"
    using N(2) digit_not_delimiter [of d] by (simp_all add: Ncons)
  have after: "drop (length pre + length (spec_quoted key)) json = '': '' @ N @ rest"
    by (simp add: json)
  have tok: "takeWhile (\<lambda>x. \<not> spec_ends_bare_token x) (N @ rest) = N"
  proof (cases rest)
    case Nil
    with N(2) show ?thesis
      by (simp add: digit_not_delimiter)
  next
    case (Cons r rs)
    with rest have "spec_ends_bare_token r"
      by (simp add: is_token_end_spec)
    with Cons N(2) show ?thesis
      by (simp add: takeWhile_tail digit_not_delimiter)
  qed
  have "spec_extract json key max_len = Some (take (max_len - 1) N)"
    unfolding spec_extract_def first option.case Let_def after
    using d tok by (simp add: spec_is_whitespace_def Ncons)
  moreover have "take (max_len - 1) N = N"
    using len by simp
  ultimately show ?thesis
    using parse_json_value_refines [of max_len key json] key len by simp
qed

lemma quoted_text_extracted:
  assumes json: "json = pre @ spec_quoted key @ '': '' @ [CHR 0x22] @ body @ [CHR 0x22] @ rest"
    and first: "spec_first_occurrence json (spec_quoted key) = Some (length pre)"
    and key: "length key \<le> 61"
    and noquote: "CHR 0x22 \<notin> set body"
    and len: "length body < max_len"
  shows "parse_json_value json key max_len = Found body"
proof -
  have after: "drop (length pre + length (spec_quoted key)) json
      = '': '' @ [CHR 0x22] @ body @ [CHR 0x22] @ rest"
    by (simp add: json)
  have tok: "takeWhile (\<lambda>x. x \<noteq> CHR 0x22) (body @ CHR 0x22 # rest) = body"
    using noquote by (auto simp: takeWhile_tail)
  have "spec_extract json key max_len = Some (take (max_len - 1) body)"
    unfolding spec_extract_def first option.case Let_def after
    using tok by (simp add: spec_is_whitespace_def)
  moreover have "take (max_len - 1) body = body"
    using len by simp
  ultimately show ?thesis
    using parse_json_value_refines [of max_len key json] key len by simp
qed

text \<open>
  C4, as the code has it. For a field name of at most 61 characters and a destination of
  at least one byte, \<open>parse_json_value\<close> is the scan of section 4.2. Where the first
  occurrence of the quoted name is followed by a colon, a space and a run of digits
  shorter than \<open>max_len\<close> that ends at a delimiter or at the end of the input, the
  result is that run of digits; where it is followed by a colon, a space and a quoted
  text without a quote and shorter than \<open>max_len\<close>, the result is that text.
\<close>

theorem parse_json_value_is_reference_scan:
  "(0 < max_len \<and> length key \<le> 61 \<longrightarrow>
      parse_json_value json key max_len =
        (case spec_extract json key max_len of None \<Rightarrow> NotFound | Some v \<Rightarrow> Found v))
   \<and> (json = pre @ spec_quoted key @ '': '' @ N @ rest
        \<and> spec_first_occurrence json (spec_quoted key) = Some (length pre)
        \<and> length key \<le> 61
        \<and> N \<noteq> [] \<and> (\<forall>c \<in> set N. is_digit c)
        \<and> (rest = [] \<or> is_token_end (hd rest))
        \<and> length N < max_len \<longrightarrow>
        parse_json_value json key max_len = Found N)
   \<and> (json = pre @ spec_quoted key @ '': '' @ [CHR 0x22] @ body @ [CHR 0x22] @ rest
        \<and> spec_first_occurrence json (spec_quoted key) = Some (length pre)
        \<and> length key \<le> 61
        \<and> CHR 0x22 \<notin> set body
        \<and> length body < max_len \<longrightarrow>
        parse_json_value json key max_len = Found body)"
  using parse_json_value_refines [of max_len key json]
    bare_integer_extracted [of json pre key N rest max_len]
    quoted_text_extracted [of json pre key body rest max_len]
  by blast

theorem parse_json_value_is_reference_scan_witness:
  \<open>(0::nat) < 32 \<and> length ''progress'' \<le> 61
   \<and> ''{"progress": 42, "status": "ok"}''
       = ''{'' @ spec_quoted ''progress'' @ '': '' @ ''42'' @ '', "status": "ok"}''
   \<and> spec_first_occurrence ''{"progress": 42, "status": "ok"}'' (spec_quoted ''progress'')
       = Some (length ''{'')
   \<and> is_digit CHR ''4'' \<and> is_digit CHR ''2''
   \<and> is_token_end (hd '', "status": "ok"}'')
   \<and> parse_json_value ''{"progress": 42, "status": "ok"}'' ''progress'' 32 = Found ''42''
   \<and> ''{"progress": 42, "status": "ok"}''
       = ''{"progress": 42, '' @ spec_quoted ''status'' @ '': '' @ [CHR 0x22] @ ''ok''
           @ [CHR 0x22] @ ''}''
   \<and> spec_first_occurrence ''{"progress": 42, "status": "ok"}'' (spec_quoted ''status'')
       = Some (length ''{"progress": 42, '')
   \<and> parse_json_value ''{"progress": 42, "status": "ok"}'' ''status'' 64 = Found ''ok''
   \<and> spec_extract ''{"progress": 42, "status": "ok"}'' ''progress'' 32 = Some ''42''\<close>
proof -
  have first_progress:
    \<open>spec_first_occurrence ''{"progress": 42, "status": "ok"}'' (spec_quoted ''progress'')
       = Some 1\<close>
    by code_simp
  have first_status:
    \<open>spec_first_occurrence ''{"progress": 42, "status": "ok"}'' (spec_quoted ''status'')
       = Some 17\<close>
    by code_simp
  have scan: \<open>spec_extract ''{"progress": 42, "status": "ok"}'' ''progress'' 32 = Some ''42''\<close>
    by code_simp
  have progress_found:
    \<open>parse_json_value ''{"progress": 42, "status": "ok"}'' ''progress'' 32 = Found ''42''\<close>
    using parse_json_value_is_reference_scan
      [of 32 \<open>''progress''\<close> \<open>''{"progress": 42, "status": "ok"}''\<close> \<open>''{''\<close> \<open>''42''\<close>
          \<open>'', "status": "ok"}''\<close> \<open>[]\<close>, THEN conjunct2, THEN conjunct1]
      first_progress
    by (simp add: spec_quoted_def is_digit_def is_token_end_def)
  have status_found:
    \<open>parse_json_value ''{"progress": 42, "status": "ok"}'' ''status'' 64 = Found ''ok''\<close>
    using parse_json_value_is_reference_scan
      [of 64 \<open>''status''\<close> \<open>''{"progress": 42, "status": "ok"}''\<close>
          \<open>''{"progress": 42, ''\<close> \<open>[]\<close> \<open>''}''\<close> \<open>''ok''\<close>, THEN conjunct2, THEN conjunct2]
      first_status
    by (simp add: spec_quoted_def)
  show ?thesis
    using progress_found status_found first_progress first_status scan
    by (simp add: spec_quoted_def is_digit_def is_token_end_def)
qed

text \<open>
  C4 as the claim words it fails. The first payload contains \<open>"progress": 5\<close>, but the
  quoted name occurs earlier, as the value of another field, and the scan returns the
  value after the next colon. In the second the digits are followed by a bracket, which
  ends no bare token. In the third the five digits do not fit a destination of three
  bytes. In the fourth the name has 62 characters: the 64-byte \<^verbatim>\<open>search_key\<close> loses
  the closing quote, and the code finds a field the scan of the specification does not.
\<close>

theorem parse_json_value_earlier_occurrence_counterexample:
  \<open>parse_json_value
      (''{"status": "progress", "step": "x", '' @ ''"progress": 5'' @ ''}'') ''progress'' 32
     = Found ''x''
   \<and> parse_json_value (''{"levels": ['' @ ''"progress": 5'' @ '']}'') ''progress'' 32
     = Found ''5]''
   \<and> parse_json_value (''{'' @ ''"progress": 12345'' @ ''}'') ''progress'' 3 = Found ''12''
   \<and> parse_json_value
       ([CHR 0x22] @ replicate 62 (CHR ''a'') @ ''x": 1'') (replicate 62 (CHR ''a'')) 32
     = Found ''1''
   \<and> spec_extract
       ([CHR 0x22] @ replicate 62 (CHR ''a'') @ ''x": 1'') (replicate 62 (CHR ''a'')) 32
     = None\<close>
proof -
  have earlier: \<open>parse_json_value
      (''{"status": "progress", "step": "x", '' @ ''"progress": 5'' @ ''}'') ''progress'' 32
     = Found ''x''\<close>
    by (simp add: parse_json_value_def snprintf_str_def strchr_def
        copy_value_def is_space_char_def is_token_end_def)
  have bracket: \<open>parse_json_value (''{"levels": ['' @ ''"progress": 5'' @ '']}'') ''progress'' 32
     = Found ''5]''\<close>
    by (simp add: parse_json_value_def snprintf_str_def strchr_def
        copy_value_def is_space_char_def is_token_end_def)
  have clipped: \<open>parse_json_value (''{'' @ ''"progress": 12345'' @ ''}'') ''progress'' 3
     = Found ''12''\<close>
    by (simp add: parse_json_value_def snprintf_str_def strchr_def
        copy_value_def is_space_char_def is_token_end_def)
  have long_code: \<open>parse_json_value
       ([CHR 0x22] @ replicate 62 (CHR ''a'') @ ''x": 1'') (replicate 62 (CHR ''a'')) 32
     = Found ''1''\<close>
    by code_simp
  have long_spec: \<open>spec_extract
       ([CHR 0x22] @ replicate 62 (CHR ''a'') @ ''x": 1'') (replicate 62 (CHR ''a'')) 32
     = None\<close>
    by code_simp
  from earlier bracket clipped long_code long_spec show ?thesis
    by (simp only: simp_thms)
qed

end
